theory Spec2Isabelle
  imports Main
begin

section \<open>JavaScript values and built-ins used by the controller\<close>

text \<open>
  The controller of \<^verbatim>\<open>proxy_form_controller.js\<close> works on DOM elements and on the plain
  objects of the \<^verbatim>\<open>chrome.proxy\<close> API. A JavaScript string is modelled as a \<open>string\<close>
  (code units below 256), a number that holds a port as an \<open>int\<close> with \<open>None\<close> for
  \<^verbatim>\<open>NaN\<close>, and \<^verbatim>\<open>null\<close>/\<^verbatim>\<open>undefined\<close> as \<open>None\<close>. An exception is a value of
  \<open>js_error\<close>: \<open>TypeError\<close> is what reading a property of \<^verbatim>\<open>undefined\<close> or
  \<^verbatim>\<open>null\<close> raises, \<open>SyntaxError\<close> is what \<^verbatim>\<open>querySelectorAll\<close> raises for a string
  that is not a selector, \<open>Thrown s\<close> is a \<^verbatim>\<open>throw\<close> of the string \<open>s\<close>.
\<close>

datatype js_error = TypeError | SyntaxError | Thrown string

text \<open>White space and line terminators of ECMAScript, among the code units below 256.\<close>

definition js_space :: "char \<Rightarrow> bool" where
  "js_space c = ((of_char c :: nat) \<in> set [9, 10, 11, 12, 13, 32, 160])"

definition js_line_terminator :: "char \<Rightarrow> bool" where
  "js_line_terminator c = ((of_char c :: nat) \<in> set [10, 13])"

definition is_digit :: "char \<Rightarrow> bool" where
  "is_digit c = (48 \<le> (of_char c :: nat) \<and> (of_char c :: nat) \<le> 57)"

fun digits_value :: "nat \<Rightarrow> string \<Rightarrow> nat" where
  "digits_value acc [] = acc"
| "digits_value acc (c # cs) = digits_value (10 * acc + ((of_char c :: nat) - 48)) cs"

text \<open>
  \<^verbatim>\<open>parseInt(v, 10)\<close>: leading white space is skipped, one sign is read, then the longest
  run of decimal digits; no digit at all gives \<^verbatim>\<open>NaN\<close>. (\<^verbatim>\<open>-0\<close> is \<open>Some 0\<close>: both are
  falsy.) The result here is the exact integer; the code's number is a double, which is
  the same value up to \<open>2 ^ 53\<close> and the nearest double beyond, never zero or
  \<^verbatim>\<open>NaN\<close> where the exact integer is not.
\<close>

definition parseInt10 :: "string \<Rightarrow> int option" where
  "parseInt10 v =
     (let S = dropWhile js_space v;
          neg = (S \<noteq> [] \<and> hd S = CHR ''-'');
          S1 = (if S \<noteq> [] \<and> (hd S = CHR ''+'' \<or> hd S = CHR ''-'') then tl S else S);
          Z = takeWhile is_digit S1
      in if Z = [] then None
         else Some ((if neg then - 1 else 1) * int (digits_value 0 Z)))"

text \<open>Truthiness of a number: neither \<^verbatim>\<open>NaN\<close> nor zero.\<close>

definition truthy_number :: "int option \<Rightarrow> bool" where
  "truthy_number n = (case n of None \<Rightarrow> False | Some k \<Rightarrow> k \<noteq> 0)"

text \<open>
  The decimal text of an integer, as assigning a number to \<^verbatim>\<open>element.value\<close> gives it
  for an integer below \<open>10 ^ 21\<close> in magnitude (from there on the code writes an
  exponent form).
\<close>

function show_nat :: "nat \<Rightarrow> string" where
  "show_nat n =
     (if n < 10 then [char_of (48 + n)]
      else show_nat (n div 10) @ [char_of (48 + n mod 10)])"
  by pat_completeness auto
termination
  by (relation "measure (\<lambda>n. n)") auto

declare show_nat.simps [simp del]

definition show_int :: "int \<Rightarrow> string" where
  "show_int k = (if k < 0 then CHR ''-'' # show_nat (nat (- k)) else show_nat (nat k))"

text \<open>\<^verbatim>\<open>Array.prototype.join\<close>.\<close>

fun js_join :: "string \<Rightarrow> string list \<Rightarrow> string" where
  "js_join sep [] = []"
| "js_join sep [x] = x"
| "js_join sep (x # y # ys) = x @ sep @ js_join sep (y # ys)"

text \<open>
  \<^verbatim>\<open>String.prototype.split\<close> with the separator \<^verbatim>\<open>/\s*(?:,|^)\s*/m\<close> of the
  \<^verbatim>\<open>bypassList\<close> getter. \<open>sep_match S q\<close> is the sticky match of the separator at
  index \<open>q\<close>: the first \<^verbatim>\<open>\s*\<close> takes the run of \<open>k\<close> white-space characters; if a
  comma follows, the match goes on over the comma and the white space after it; if not,
  the match backtracks to a start of line (index 0 or just after a line terminator) inside
  the run, and ends where the run ends. \<open>split_loop\<close> is the loop of the split
  algorithm, with \<open>p\<close> the end of the last separator and \<open>q\<close> the search index.
\<close>

definition ws_run :: "string \<Rightarrow> nat" where
  "ws_run s = length (takeWhile js_space s)"

definition line_start :: "string \<Rightarrow> nat \<Rightarrow> bool" where
  "line_start S i = (i = 0 \<or> js_line_terminator (S ! (i - 1)))"

definition sep_match :: "string \<Rightarrow> nat \<Rightarrow> nat option" where
  "sep_match S q =
     (let k = ws_run (drop q S) in
      if q + k < length S \<and> S ! (q + k) = CHR '',''
      then Some (q + k + 1 + ws_run (drop (q + k + 1) S))
      else if list_ex (\<lambda>j. line_start S (q + j)) [0..<Suc k] then Some (q + k)
      else None)"

function split_loop :: "string \<Rightarrow> nat \<Rightarrow> nat \<Rightarrow> string list \<Rightarrow> string list" where
  "split_loop S p q A =
     (if q < length S then
        (case sep_match S q of
           None \<Rightarrow> split_loop S p (q + 1) A
         | Some e0 \<Rightarrow>
             (let e = min e0 (length S) in
              if e = p then split_loop S p (q + 1) A
              else split_loop S e e (A @ [take (q - p) (drop p S)])))
      else A @ [drop p S])"
  by pat_completeness auto
termination
proof (relation "measure (\<lambda>(S, p, q, A). 2 * (length S - q) + (if p = q then 0 else 1))",
    goal_cases)
  case 1
  show ?case by simp
next
  case (2 S p q A)
  then show ?case by (simp split: if_splits) arith
next
  case (3 S p q A e0 e)
  then show ?case by (simp split: if_splits) arith
next
  case (4 S p q A e0 e)
  from 4 have ge: "q \<le> e0"
    by (auto simp: sep_match_def Let_def split: if_splits)
  with 4 show ?case by (auto simp: min_def split: if_splits)
qed

declare split_loop.simps [simp del]

definition split_bypass :: "string \<Rightarrow> string list" where
  "split_bypass S = (if S = [] then [] else split_loop S 0 0 [])"

section \<open>The configuration objects\<close>

text \<open>
  A \<^verbatim>\<open>ProxyServer\<close>, the \<^verbatim>\<open>pacScript\<close> and \<^verbatim>\<open>rules\<close> members of a \<^verbatim>\<open>ProxyConfig\<close>, and
  the pair \<^verbatim>\<open>{proxy, restrictRtc}\<close> the controller keeps for each window type. A member
  that is absent is \<open>None\<close>.
\<close>

record proxy_server =
  scheme :: string
  host :: string
  port :: int

record pac_script =
  url :: "string option"
  data :: "string option"
  mandatory :: "bool option"

record proxy_rules =
  singleProxy :: "proxy_server option"
  proxyForHttp :: "proxy_server option"
  proxyForHttps :: "proxy_server option"
  proxyForFtp :: "proxy_server option"
  fallbackProxy :: "proxy_server option"
  bypassList :: "string list option"

record proxy_config =
  mode :: string
  pacScript :: "pac_script option"
  rules :: "proxy_rules option"

record config =
  proxy :: "proxy_config option"
  restrictRtc :: "string option"

text \<open>\<^verbatim>\<open>ProxyFormController.ProxyTypes\<close> and \<^verbatim>\<open>RestrictRtcTypes\<close>.\<close>

definition AUTO :: string where "AUTO = ''auto_detect''"
definition PAC :: string where "PAC = ''pac_script''"
definition DIRECT :: string where "DIRECT = ''direct''"
definition FIXED :: string where "FIXED = ''fixed_servers''"
definition SYSTEM :: string where "SYSTEM = ''system''"

definition RTC_DEFAULT :: string where "RTC_DEFAULT = ''default''"
definition RTC_RESTRICT :: string where "RTC_RESTRICT = ''disable_non_proxied_udp''"

section \<open>The document\<close>

text \<open>
  The popup's markup is not part of the source, so the document is the state the
  controller reads and writes through it. A configuration group is a \<^verbatim>\<open>fieldset\<close> child
  of the form: its \<^verbatim>\<open>id\<close>, whether its class list holds \<^verbatim>\<open>active\<close>, its mode selector,
  which is the radio button that \<^verbatim>\<open>querySelector("input[type='radio']")\<close> finds in it (the
  first one), with its \<^verbatim>\<open>checked\<close> state and its \<^verbatim>\<open>disabled\<close> attribute, and the other
  form controls inside the group in document order, each with its kind and its
  \<^verbatim>\<open>disabled\<close> attribute. The kinds are: an \<^verbatim>\<open>input\<close> that matches \<^verbatim>\<open>[type='radio']\<close>, any
  other \<^verbatim>\<open>input\<close>, a \<^verbatim>\<open>select\<close> and a \<^verbatim>\<open>textarea\<close>. The elements the getters and
  setters look up by id are the remaining members of \<open>form\<close>.
\<close>

datatype control_kind = InputRadio | InputOther | Select | Textarea

record control =
  kind :: control_kind
  disabled :: bool

record group =
  gid :: string
  active :: bool
  radio_checked :: bool
  radio_disabled :: bool
  controls :: "control list"

text \<open>
  The selector \<^verbatim>\<open>"input:not([type='radio']), select, textarea"\<close> of
  \<^verbatim>\<open>recalcDisabledInputs_\<close>: which kinds of control it matches. The mode selector of a
  group is an \<^verbatim>\<open>input\<close> that matches \<^verbatim>\<open>[type='radio']\<close>, so \<open>inputs\<close>, the result of
  the query on a group, is taken from its other controls.
\<close>

fun selected_field :: "control_kind \<Rightarrow> bool" where
  "selected_field InputRadio = False"
| "selected_field InputOther = True"
| "selected_field Select = True"
| "selected_field Textarea = True"

definition inputs :: "group \<Rightarrow> control list" where
  "inputs el = filter (\<lambda>c. selected_field (kind c)) (controls el)"

record proxy_fields =
  proxyScheme :: string
  proxyHost :: string
  proxyPort :: string

datatype proxy_type = Http | Https | Ftp | Fallback

record form =
  configGroups :: "group list"
  autoconfigURL :: string
  autoconfigData :: string
  bypassListField :: string
  singleProxyForEverything :: bool
  single_class :: bool
  proxyHttp :: proxy_fields
  proxyHttps :: proxy_fields
  proxyFtp :: proxy_fields
  proxyFallback :: proxy_fields
  restrictRtcBox :: bool
  incognito_class :: bool
  button_text :: string
  header_html :: string

fun proxy_input :: "proxy_type \<Rightarrow> form \<Rightarrow> proxy_fields" where
  "proxy_input Http f = proxyHttp f"
| "proxy_input Https f = proxyHttps f"
| "proxy_input Ftp f = proxyFtp f"
| "proxy_input Fallback f = proxyFallback f"

fun set_proxy_input :: "proxy_type \<Rightarrow> proxy_fields \<Rightarrow> form \<Rightarrow> form" where
  "set_proxy_input Http v f = f\<lparr>proxyHttp := v\<rparr>"
| "set_proxy_input Https v f = f\<lparr>proxyHttps := v\<rparr>"
| "set_proxy_input Ftp v f = f\<lparr>proxyFtp := v\<rparr>"
| "set_proxy_input Fallback v f = f\<lparr>proxyFallback := v\<rparr>"

section \<open>Getters: reading the form\<close>

text \<open>
  \<^verbatim>\<open>getProxyImpl_(type)\<close> builds \<^verbatim>\<open>{scheme, host, port: parseInt(port, 10)}\<close> and returns it
  only if all three members are truthy, \<^verbatim>\<open>undefined\<close> otherwise.
\<close>

definition getProxyImpl :: "proxy_type \<Rightarrow> form \<Rightarrow> proxy_server option" where
  "getProxyImpl ty f =
     (let i = proxy_input ty f; n = parseInt10 (proxyPort i) in
      if proxyScheme i \<noteq> [] \<and> proxyHost i \<noteq> [] \<and> truthy_number n
      then Some \<lparr>scheme = proxyScheme i, host = proxyHost i, port = the n\<rparr>
      else None)"

definition httpProxy :: "form \<Rightarrow> proxy_server option" where
  "httpProxy f = getProxyImpl Http f"

definition httpsProxy :: "form \<Rightarrow> proxy_server option" where
  "httpsProxy f = getProxyImpl Https f"

definition ftpProxy :: "form \<Rightarrow> proxy_server option" where
  "ftpProxy f = getProxyImpl Ftp f"

definition get_fallbackProxy :: "form \<Rightarrow> proxy_server option" where
  "get_fallbackProxy f = getProxyImpl Fallback f"

text \<open>\<^verbatim>\<open>get singleProxy\<close>: \<^verbatim>\<open>checkbox.checked ? this.httpProxy : null\<close>.\<close>

definition get_singleProxy :: "form \<Rightarrow> proxy_server option" where
  "get_singleProxy f = (if singleProxyForEverything f then httpProxy f else None)"

definition get_bypassList :: "form \<Rightarrow> string list" where
  "get_bypassList f = split_bypass (bypassListField f)"

definition get_restrictRtc :: "form \<Rightarrow> string" where
  "get_restrictRtc f = (if restrictRtcBox f then RTC_RESTRICT else RTC_DEFAULT)"

definition pacURL :: "form \<Rightarrow> string" where
  "pacURL f = autoconfigURL f"

definition manualPac :: "form \<Rightarrow> string" where
  "manualPac f = autoconfigData f"

text \<open>
  \<^verbatim>\<open>document.getElementsByClassName('active')[0]\<close>: the first element that carries the
  class, which the controller only ever puts on configuration groups.
\<close>

definition first_active :: "form \<Rightarrow> group option" where
  "first_active f = List.find active (configGroups f)"

text \<open>
  \<^verbatim>\<open>generateProxyConfig_\<close>. Reading \<^verbatim>\<open>active.id\<close> with no active element raises a
  \<^verbatim>\<open>TypeError\<close>; an id that is none of the four cases leaves the \<^verbatim>\<open>switch\<close> and the
  function returns \<^verbatim>\<open>undefined\<close>, here \<open>Inr None\<close>.
\<close>

definition generateProxyConfig :: "form \<Rightarrow> js_error + proxy_config option" where
  "generateProxyConfig f =
     (case first_active f of
        None \<Rightarrow> Inl TypeError
      | Some a \<Rightarrow>
          if gid a = SYSTEM then
            Inr (Some \<lparr>mode = ''system'', pacScript = None, rules = None\<rparr>)
          else if gid a = DIRECT then
            Inr (Some \<lparr>mode = ''direct'', pacScript = None, rules = None\<rparr>)
          else if gid a = PAC then
            (let pacScriptURL = pacURL f; pacManual = manualPac f in
             if pacScriptURL \<noteq> [] then
               Inr (Some \<lparr>mode = ''pac_script'',
                    pacScript = Some \<lparr>url = Some pacScriptURL, data = None,
                                       mandatory = Some True\<rparr>,
                    rules = None\<rparr>)
             else if pacManual \<noteq> [] then
               Inr (Some \<lparr>mode = ''pac_script'',
                    pacScript = Some \<lparr>url = None, data = Some pacManual,
                                       mandatory = Some True\<rparr>,
                    rules = None\<rparr>)
             else Inr (Some \<lparr>mode = ''auto_detect'', pacScript = None, rules = None\<rparr>))
          else if gid a = FIXED then
            (if get_singleProxy f \<noteq> None then
               Inr (Some \<lparr>mode = ''fixed_servers'', pacScript = None,
                    rules = Some \<lparr>singleProxy = get_singleProxy f,
                                   proxyForHttp = None, proxyForHttps = None,
                                   proxyForFtp = None, fallbackProxy = None,
                                   bypassList = Some (get_bypassList f)\<rparr>\<rparr>)
             else
               Inr (Some \<lparr>mode = ''fixed_servers'', pacScript = None,
                    rules = Some \<lparr>singleProxy = None,
                                   proxyForHttp = httpProxy f,
                                   proxyForHttps = httpsProxy f,
                                   proxyForFtp = ftpProxy f,
                                   fallbackProxy = get_fallbackProxy f,
                                   bypassList = Some (get_bypassList f)\<rparr>\<rparr>))
          else Inr None)"

section \<open>Setters: writing the form\<close>

definition set_pacURL :: "string \<Rightarrow> form \<Rightarrow> form" where
  "set_pacURL v f = f\<lparr>autoconfigURL := v\<rparr>"

definition set_manualPac :: "string \<Rightarrow> form \<Rightarrow> form" where
  "set_manualPac v f = f\<lparr>autoconfigData := v\<rparr>"

text \<open>
  \<^verbatim>\<open>set bypassList(data)\<close>: a falsy argument (\<^verbatim>\<open>undefined\<close>, or the \<^verbatim>\<open>''\<close> that
  \<^verbatim>\<open>recalcFormValues_\<close> passes) is replaced by the empty array.
\<close>

definition set_bypassList :: "string list option \<Rightarrow> form \<Rightarrow> form" where
  "set_bypassList d f =
     f\<lparr>bypassListField := js_join '', '' (case d of None \<Rightarrow> [] | Some xs \<Rightarrow> xs)\<rparr>"

text \<open>
  \<^verbatim>\<open>setProxyImpl_(type, data)\<close>: a falsy \<^verbatim>\<open>data\<close> is replaced by
  \<^verbatim>\<open>{scheme: 'http', host: '', port: ''}\<close>.
\<close>

definition setProxyImpl :: "proxy_type \<Rightarrow> proxy_server option \<Rightarrow> form \<Rightarrow> form" where
  "setProxyImpl ty d f =
     (case d of
        None \<Rightarrow>
          set_proxy_input ty \<lparr>proxyScheme = ''http'', proxyHost = [], proxyPort = []\<rparr> f
      | Some p \<Rightarrow>
          set_proxy_input ty
            \<lparr>proxyScheme = scheme p, proxyHost = host p, proxyPort = show_int (port p)\<rparr> f)"

definition set_httpProxy :: "proxy_server option \<Rightarrow> form \<Rightarrow> form" where
  "set_httpProxy d f = setProxyImpl Http d f"

definition set_httpsProxy :: "proxy_server option \<Rightarrow> form \<Rightarrow> form" where
  "set_httpsProxy d f = setProxyImpl Https d f"

definition set_ftpProxy :: "proxy_server option \<Rightarrow> form \<Rightarrow> form" where
  "set_ftpProxy d f = setProxyImpl Ftp d f"

definition set_fallbackProxy :: "proxy_server option \<Rightarrow> form \<Rightarrow> form" where
  "set_fallbackProxy d f = setProxyImpl Fallback d f"

text \<open>
  \<^verbatim>\<open>set singleProxy(data)\<close>: the checkbox is checked iff \<^verbatim>\<open>data\<close> is truthy, the Http
  fields are written only then, and the \<^verbatim>\<open>single\<close> class follows the checkbox.
\<close>

definition set_singleProxy :: "proxy_server option \<Rightarrow> form \<Rightarrow> form" where
  "set_singleProxy d f =
     (let f1 = f\<lparr>singleProxyForEverything := (d \<noteq> None)\<rparr>;
          f2 = (if d \<noteq> None then set_httpProxy d f1 else f1)
      in f2\<lparr>single_class := singleProxyForEverything f2\<rparr>)"

definition set_restrictRtc :: "string \<Rightarrow> form \<Rightarrow> form" where
  "set_restrictRtc d f = f\<lparr>restrictRtcBox := (d = RTC_RESTRICT)\<rparr>"

section \<open>Activating a configuration group\<close>

text \<open>
  \<^verbatim>\<open>changeActive_(fieldset)\<close> compares each group with its argument by identity. A group
  is identified by its index in \<^verbatim>\<open>configGroups_\<close>; the argument is \<open>Some i\<close> for the
  group at index \<open>i\<close> and \<open>None\<close> for \<^verbatim>\<open>null\<close> or any element that is not a group.
  \<open>mark_groups\<close> is the loop, with the index of the head of the list.
\<close>

fun mark_groups :: "nat option \<Rightarrow> nat \<Rightarrow> group list \<Rightarrow> group list" where
  "mark_groups t i [] = []"
| "mark_groups t i (el # els) =
     (if t = Some i then el\<lparr>active := True, radio_checked := True\<rparr>
      else el\<lparr>active := False\<rparr>) # mark_groups t (Suc i) els"

text \<open>
  \<^verbatim>\<open>recalcDisabledInputs_\<close>: in an active group the \<^verbatim>\<open>disabled\<close> attribute is removed
  from every control the selector matches, in any other group it is set. A control the
  selector does not match, and the mode selector, are not touched.
\<close>

definition set_disabled :: "bool \<Rightarrow> control \<Rightarrow> control" where
  "set_disabled b c = (if selected_field (kind c) then c\<lparr>disabled := b\<rparr> else c)"

definition recalc_group :: "group \<Rightarrow> group" where
  "recalc_group el =
     (if active el then el\<lparr>controls := map (set_disabled False) (controls el)\<rparr>
      else el\<lparr>controls := map (set_disabled True) (controls el)\<rparr>)"

definition recalcDisabledInputs :: "form \<Rightarrow> form" where
  "recalcDisabledInputs f = f\<lparr>configGroups := map recalc_group (configGroups f)\<rparr>"

definition changeActive :: "nat option \<Rightarrow> form \<Rightarrow> form" where
  "changeActive fieldset f =
     recalcDisabledInputs (f\<lparr>configGroups := mark_groups fieldset 0 (configGroups f)\<rparr>)"

text \<open>
  \<^verbatim>\<open>document.getElementById(c.mode)\<close>, as far as \<^verbatim>\<open>changeActive_\<close> can tell: the index
  of the first group with that id.
\<close>

fun find_group :: "string \<Rightarrow> nat \<Rightarrow> group list \<Rightarrow> nat option" where
  "find_group i n [] = None"
| "find_group i n (el # els) = (if gid el = i then Some n else find_group i (Suc n) els)"

definition getElementById_group :: "string \<Rightarrow> form \<Rightarrow> nat option" where
  "getElementById_group i f = find_group i 0 (configGroups f)"

section \<open>Events\<close>

text \<open>
  What the controller does to the outside, in order: calls on the click event, calls of
  the platform API, alerts (the overlay of \<^verbatim>\<open>generateAlert_\<close>), console output and the
  closing of the popup. The text of a localised message is the platform's; an alert built
  by \<^verbatim>\<open>chrome.i18n.getMessage\<close> is recorded by its message name.
\<close>

datatype message = Text string | I18n string

datatype scope = regular_only | incognito_persistent

datatype event =
    PreventDefault
  | StopPropagation
  | IsAllowedIncognitoAccess
  | GetProxy bool
  | GetRtc bool
  | SetProxy scope "proxy_config option"
  | SetRtc scope "string option"
  | SendMessage string
  | Alert message
  | ConsoleError string
  | WindowClose

section \<open>Rendering a configuration into the form\<close>

text \<open>
  \<^verbatim>\<open>recalcFormValues_(config)\<close>. The function assigns to \<^verbatim>\<open>c.mode\<close>, a member of the
  object it was given, so the model returns the configuration as it is afterwards,
  together with the form and what was logged.
\<close>

definition recalcFormValues :: "config \<Rightarrow> form \<Rightarrow> config \<times> form \<times> event list" where
  "recalcFormValues cfg f =
     (case (proxy cfg, restrictRtc cfg) of
        (Some c0, Some rtc) \<Rightarrow>
          (let c = (if mode c0 = ''auto_detect'' then c0\<lparr>mode := ''pac_script''\<rparr> else c0);
               f1 = changeActive (getElementById_group (mode c) f) f;
               f2 = (case pacScript c of
                       Some ps \<Rightarrow>
                         (case url ps of
                            Some u \<Rightarrow> if u \<noteq> [] then set_pacURL u f1 else f1
                          | None \<Rightarrow> f1)
                     | None \<Rightarrow> set_pacURL [] f1);
               f3 = (case rules c of
                       Some r \<Rightarrow>
                         set_bypassList (bypassList r)
                           (case singleProxy r of
                              Some sp \<Rightarrow> set_singleProxy (Some sp) f2
                            | None \<Rightarrow>
                                set_fallbackProxy (fallbackProxy r)
                                  (set_ftpProxy (proxyForFtp r)
                                    (set_httpsProxy (proxyForHttps r)
                                      (set_httpProxy (proxyForHttp r)
                                        (set_singleProxy None f2)))))
                     | None \<Rightarrow>
                         set_bypassList None
                           (set_fallbackProxy None
                             (set_ftpProxy None
                               (set_httpsProxy None
                                 (set_httpProxy None
                                   (set_singleProxy None f2))))))
           in (cfg\<lparr>proxy := Some c\<rparr>, set_restrictRtc rtc f3, []))
      | _ \<Rightarrow> (cfg, f, [ConsoleError ''recalcFormValues_ missing data'']))"

section \<open>The controller\<close>

text \<open>
  The controller's own state: the document, the two configurations
  \<^verbatim>\<open>regularConfig_\<close> and \<^verbatim>\<open>incognitoConfig_\<close>, the flag
  \<^verbatim>\<open>isAllowedIncognitoAccess_\<close>, and the events so far.
\<close>

record state =
  dom :: form
  regularConfig :: config
  incognitoConfig :: config
  isAllowedIncognitoAccess :: bool
  trace :: "event list"

definition emit :: "event list \<Rightarrow> state \<Rightarrow> state" where
  "emit evs s = s\<lparr>trace := trace s @ evs\<rparr>"

definition generateAlert :: "message \<Rightarrow> state \<Rightarrow> state" where
  "generateAlert msg s = emit [Alert msg] s"

definition isIncognitoMode :: "state \<Rightarrow> bool" where
  "isIncognitoMode s = incognito_class (dom s)"

text \<open>
  Rendering one of the controller's two configurations: the call
  \<^verbatim>\<open>this.recalcFormValues_(this.regularConfig_)\<close> (or with \<^verbatim>\<open>incognitoConfig_\<close>), where
  the assignment to \<^verbatim>\<open>c.mode\<close> lands in the controller's own object.
\<close>

definition render_regular :: "state \<Rightarrow> state" where
  "render_regular s =
     (case recalcFormValues (regularConfig s) (dom s) of
        (cfg, f, evs) \<Rightarrow> emit evs (s\<lparr>dom := f, regularConfig := cfg\<rparr>))"

definition render_incognito :: "state \<Rightarrow> state" where
  "render_incognito s =
     (case recalcFormValues (incognitoConfig s) (dom s) of
        (cfg, f, evs) \<Rightarrow> emit evs (s\<lparr>dom := f, incognitoConfig := cfg\<rparr>))"

text \<open>
  The two assignments \<^verbatim>\<open>config.proxy = this.generateProxyConfig_()\<close> and
  \<^verbatim>\<open>config.restrictRtc = this.restrictRtc\<close> that save the form into the configuration of
  the window type on display.
\<close>

definition save_form :: "proxy_config option \<Rightarrow> state \<Rightarrow> state" where
  "save_form c s =
     (if isIncognitoMode s
      then s\<lparr>incognitoConfig :=
               (incognitoConfig s)\<lparr>proxy := c, restrictRtc := Some (get_restrictRtc (dom s))\<rparr>\<rparr>
      else s\<lparr>regularConfig :=
               (regularConfig s)\<lparr>proxy := c, restrictRtc := Some (get_restrictRtc (dom s))\<rparr>\<rparr>)"

subsection \<open>Switching between the regular and the incognito configuration\<close>

definition incognito_denied_msg :: string where
  "incognito_denied_msg =
     ''I'm so'' @ ''rry, Dave, I'm afraid I can't do that. '' @
     ''Please right-click my icon, select 'Manage'' @ [CHR 0xA0] @ ''extension', '' @
     ''and enable 'Allow'' @ [CHR 0xA0] @ ''in'' @ [CHR 0xA0] @
     ''Incognito' to use this feature.''"

definition toggleIncognitoMode :: "state \<Rightarrow> js_error + state" where
  "toggleIncognitoMode s =
     (let s1 = emit [PreventDefault, StopPropagation] s in
      if \<not> isAllowedIncognitoAccess s1 then
        Inr (generateAlert (Text incognito_denied_msg) s1)
      else
        (case generateProxyConfig (dom s1) of
           Inl err \<Rightarrow> Inl err
         | Inr c \<Rightarrow>
             (let s2 = save_form c s1 in
              if isIncognitoMode s1 then
                (let s3 = render_regular (s2\<lparr>dom := (dom s2)\<lparr>incognito_class := False\<rparr>\<rparr>)
                 in Inr (s3\<lparr>dom := (dom s3)
                      \<lparr>button_text := ''Configure incognito window settings.'',
                       header_html := ''Proxy Configuration (regular)''\<rparr>\<rparr>))
              else
                (let s3 = render_incognito (s2\<lparr>dom := (dom s2)\<lparr>incognito_class := True\<rparr>\<rparr>)
                 in Inr (s3\<lparr>dom := (dom s3)
                      \<lparr>button_text := ''Configure regular window settings.'',
                       header_html := ''Proxy Configuration (incognito)''\<rparr>\<rparr>)))))"

subsection \<open>Applying the form\<close>

text \<open>
  In one run of \<^verbatim>\<open>applyChanges_\<close> each of the four platform writes is attempted at most
  once; \<open>write_outcomes\<close> says for each whether the platform accepts it (the awaited
  promise resolves) or not (it rejects, or the call throws).
\<close>

record write_outcomes =
  regular_proxy_ok :: bool
  regular_rtc_ok :: bool
  incognito_proxy_ok :: bool
  incognito_rtc_ok :: bool

text \<open>The second \<^verbatim>\<open>try\<close> block, entered only if \<^verbatim>\<open>this.incognitoConfig_.proxy\<close> is truthy.\<close>

definition write_incognito :: "write_outcomes \<Rightarrow> state \<Rightarrow> state" where
  "write_incognito w s =
     (let s1 = emit [SetProxy incognito_persistent (proxy (incognitoConfig s))] s in
      if \<not> incognito_proxy_ok w then
        generateAlert (I18n ''errorSettingIncognitoProxy'') s1
      else
        (let s2 = emit [SetRtc incognito_persistent (restrictRtc (incognitoConfig s1))] s1 in
         if \<not> incognito_rtc_ok w then
           generateAlert (I18n ''errorSettingIncognitoProxy'') s2
         else emit [WindowClose] s2))"

definition applyChanges :: "write_outcomes \<Rightarrow> state \<Rightarrow> js_error + state" where
  "applyChanges w s =
     (let s1 = emit [PreventDefault, StopPropagation] s in
      case generateProxyConfig (dom s1) of
        Inl err \<Rightarrow> Inl err
      | Inr c \<Rightarrow>
          (let s2 = save_form c s1;
               s3 = emit [SendMessage ''clearError''] s2;
               s4 = emit [SetProxy regular_only (proxy (regularConfig s3))] s3 in
           if \<not> regular_proxy_ok w then
             Inr (generateAlert (I18n ''errorSettingRegularProxy'') s4)
           else
             (let s5 = emit [SetRtc regular_only (restrictRtc (regularConfig s4))] s4 in
              if \<not> regular_rtc_ok w then
                Inr (generateAlert (I18n ''errorSettingRegularProxy'') s5)
              else if proxy (incognitoConfig s5) \<noteq> None then
                Inr (write_incognito w s5)
              else Inr (emit [WindowClose] s5))))"

subsection \<open>Reading the platform's settings\<close>

text \<open>
  What the platform answers to the reads of \<^verbatim>\<open>readCurrentState_\<close>: the answer of
  \<^verbatim>\<open>isAllowedIncognitoAccess\<close> and, for each of the four settings, the value and the
  level of control.
\<close>

record 'a setting =
  setting_value :: 'a
  levelOfControl :: string

record platform =
  allowedIncognito :: bool
  regular_proxy :: "proxy_config setting"
  regular_privacy :: "string setting"
  incognito_proxy :: "proxy_config setting"
  incognito_privacy :: "string setting"

definition AVAILABLE :: string where
  "AVAILABLE = ''controllable_by_this_extension''"

definition CONTROLLING :: string where
  "CONTROLLING = ''controlled_by_this_extension''"

definition level_ok :: "string \<Rightarrow> bool" where
  "level_ok l = (l = AVAILABLE \<or> l = CONTROLLING)"

text \<open>\<^verbatim>\<open>accessOk_(c, errs, what)\<close>: the result, and \<^verbatim>\<open>errs\<close> after the call.\<close>

definition accessOk :: "'a setting \<Rightarrow> string list \<Rightarrow> string \<Rightarrow> bool \<times> string list" where
  "accessOk c errs what =
     (if level_ok (levelOfControl c) then (True, errs)
      else (False, errs @ [what @ '': '' @ levelOfControl c]))"

definition CRLF :: string where
  "CRLF = [CHR 0x0D, CHR 0x0A]"

definition read_regular :: "platform \<Rightarrow> state \<times> string list \<Rightarrow> state \<times> string list" where
  "read_regular pf se =
     (case se of (s, errs) \<Rightarrow>
        (let s1 = emit [GetProxy False] s;
             (ok1, errs1) = accessOk (regular_proxy pf) errs ''regular/proxy'';
             s2 = (if ok1
                   then s1\<lparr>regularConfig :=
                          (regularConfig s1)\<lparr>proxy := Some (setting_value (regular_proxy pf))\<rparr>\<rparr>
                   else s1);
             s3 = emit [GetRtc False] s2;
             (ok2, errs2) = accessOk (regular_privacy pf) errs1 ''regular/privacy'';
             s4 = (if ok2
                   then s3\<lparr>regularConfig :=
                          (regularConfig s3)
                            \<lparr>restrictRtc := Some (setting_value (regular_privacy pf))\<rparr>\<rparr>
                   else s3)
         in (s4, errs2)))"

definition read_incognito :: "platform \<Rightarrow> state \<times> string list \<Rightarrow> state \<times> string list" where
  "read_incognito pf se =
     (case se of (s, errs) \<Rightarrow>
        (let s1 = emit [GetProxy True] s;
             (ok1, errs1) = accessOk (incognito_proxy pf) errs ''incognito/proxy'';
             s2 = (if ok1
                   then s1\<lparr>incognitoConfig :=
                          (incognitoConfig s1)\<lparr>proxy := Some (setting_value (incognito_proxy pf))\<rparr>\<rparr>
                   else s1);
             s3 = emit [GetRtc True] s2;
             (ok2, errs2) = accessOk (incognito_privacy pf) errs1 ''incognito/privacy'';
             s4 = (if ok2
                   then s3\<lparr>incognitoConfig :=
                          (incognitoConfig s3)
                            \<lparr>restrictRtc := Some (setting_value (incognito_privacy pf))\<rparr>\<rparr>
                   else s3)
         in (s4, errs2)))"

definition readCurrentState :: "platform \<Rightarrow> state \<Rightarrow> state" where
  "readCurrentState pf s =
     (let s0 = emit [IsAllowedIncognitoAccess]
                 (s\<lparr>isAllowedIncognitoAccess := allowedIncognito pf\<rparr>);
          (s1, errs1) = read_regular pf (s0, [''Failed to read state:'']);
          (s2, errs) = (if isAllowedIncognitoAccess s1 then read_incognito pf (s1, errs1)
                        else (s1, errs1));
          s3 = (if isIncognitoMode s2 then render_incognito s2 else render_regular s2)
      in if length errs > 1 then generateAlert (Text (js_join CRLF errs)) s3 else s3)"

subsection \<open>Construction\<close>

text \<open>
  The guards of the constructor are \<^verbatim>\<open>!this.header_?.nodeName == 'H1'\<close> and
  \<^verbatim>\<open>!this.form_?.nodeName == 'FORM'\<close>. The negation binds tighter than \<^verbatim>\<open>==\<close>, so each
  compares a boolean with a string: both sides are converted to numbers. An element is
  given by its \<^verbatim>\<open>nodeName\<close>, \<open>None\<close> being \<^verbatim>\<open>null\<close>. \<open>string_to_number\<close> covers the
  strings that are empty or an optionally signed run of decimal digits once white space is
  trimmed, and is \<^verbatim>\<open>NaN\<close> on every string holding a letter other than in a numeric
  literal, which is all the two literals need.
\<close>

definition js_not :: "string option \<Rightarrow> bool" where
  "js_not v = (case v of None \<Rightarrow> True | Some x \<Rightarrow> x = [])"

definition string_to_number :: "string \<Rightarrow> int option" where
  "string_to_number v =
     (let t = rev (dropWhile js_space (rev (dropWhile js_space v)));
          neg = (t \<noteq> [] \<and> hd t = CHR ''-'');
          d = (if t \<noteq> [] \<and> (hd t = CHR ''+'' \<or> hd t = CHR ''-'') then tl t else t)
      in if t = [] then Some 0
         else if d \<noteq> [] \<and> list_all is_digit d
         then Some ((if neg then - 1 else 1) * int (digits_value 0 d))
         else None)"

definition loose_eq_bool_string :: "bool \<Rightarrow> string \<Rightarrow> bool" where
  "loose_eq_bool_string b v = (string_to_number v = Some (if b then 1 else 0))"

datatype init_step = QueryConfigGroups | BindEventHandlers | ReadCurrentState | HandleProxyErrors

text \<open>
  \<open>ProxyFormController getElementById valid_selector headerId formId\<close>: the exception
  thrown together with the steps of the initialisation that had run by then, or all the
  steps. \<open>valid_selector\<close> says which strings the document accepts as a selector:
  \<^verbatim>\<open>querySelectorAll\<close> is called with \<^verbatim>\<open>`#${formId} > fieldset`\<close> and raises a
  \<^verbatim>\<open>SyntaxError\<close> for any other string. With no form element,
  \<^verbatim>\<open>this.form_.addEventListener\<close> in \<^verbatim>\<open>bindEventHandlers_\<close> raises a \<^verbatim>\<open>TypeError\<close>,
  after the groups were queried.
\<close>

definition ProxyFormController ::
    "(string \<Rightarrow> string option) \<Rightarrow> (string \<Rightarrow> bool) \<Rightarrow> string \<Rightarrow> string \<Rightarrow>
       js_error \<times> init_step list + init_step list" where
  "ProxyFormController getElementById valid_selector headerId formId =
     (let header = getElementById headerId; form = getElementById formId in
      if loose_eq_bool_string (js_not header) ''H1''
      then Inl (Thrown (headerId @ '' is not an H1''), [])
      else if loose_eq_bool_string (js_not form) ''FORM''
      then Inl (Thrown (formId @ '' is not a form''), [])
      else if \<not> valid_selector (''#'' @ formId @ '' > fieldset'')
      then Inl (SyntaxError, [])
      else if form = None then Inl (TypeError, [QueryConfigGroups])
      else Inr [QueryConfigGroups, BindEventHandlers, ReadCurrentState, HandleProxyErrors])"

section \<open>Notions used to state the properties\<close>

text \<open>Kinds of events.\<close>

fun is_alert :: "event \<Rightarrow> bool" where
  "is_alert (Alert m) = True"
| "is_alert ev = False"

fun is_incognito_write :: "event \<Rightarrow> bool" where
  "is_incognito_write (SetProxy sc v) = (sc = incognito_persistent)"
| "is_incognito_write (SetRtc sc v) = (sc = incognito_persistent)"
| "is_incognito_write ev = False"

fun is_read :: "event \<Rightarrow> bool" where
  "is_read IsAllowedIncognitoAccess = True"
| "is_read (GetProxy i) = True"
| "is_read (GetRtc i) = True"
| "is_read ev = False"

text \<open>
  The fields of a group: its mode selector and its other controls, each with its
  \<^verbatim>\<open>disabled\<close> attribute.
\<close>

definition fields :: "group \<Rightarrow> control list" where
  "fields g = \<lparr>kind = InputRadio, disabled = radio_disabled g\<rparr> # controls g"

definition is_radio :: "control \<Rightarrow> bool" where
  "is_radio c = (kind c = InputRadio)"

text \<open>
  The per-scheme entries of a \<^verbatim>\<open>rules\<close> object that are present, by protocol name: the
  \<open>perSchemeProxies\<close> mapping of the specification's data model.
\<close>

definition perSchemeProxies :: "proxy_rules \<Rightarrow> (string \<times> proxy_server) list" where
  "perSchemeProxies r =
     (case proxyForHttp r of None \<Rightarrow> [] | Some p \<Rightarrow> [(''http'', p)]) @
     (case proxyForHttps r of None \<Rightarrow> [] | Some p \<Rightarrow> [(''https'', p)]) @
     (case proxyForFtp r of None \<Rightarrow> [] | Some p \<Rightarrow> [(''ftp'', p)]) @
     (case fallbackProxy r of None \<Rightarrow> [] | Some p \<Rightarrow> [(''fallback'', p)])"

text \<open>
  The access errors of one load, in the order of the reads: one description for each read
  that was made and whose level of control is not acceptable. \<open>read_events\<close> are the
  platform calls of that load.
\<close>

definition denied :: "'a setting \<Rightarrow> string \<Rightarrow> string list" where
  "denied c what =
     (if level_ok (levelOfControl c) then [] else [what @ '': '' @ levelOfControl c])"

definition access_errors :: "platform \<Rightarrow> string list" where
  "access_errors pf =
     denied (regular_proxy pf) ''regular/proxy'' @
     denied (regular_privacy pf) ''regular/privacy'' @
     (if allowedIncognito pf
      then denied (incognito_proxy pf) ''incognito/proxy'' @
           denied (incognito_privacy pf) ''incognito/privacy''
      else [])"

definition read_events :: "platform \<Rightarrow> event list" where
  "read_events pf =
     [IsAllowedIncognitoAccess, GetProxy False, GetRtc False] @
     (if allowedIncognito pf then [GetProxy True, GetRtc True] else [])"

text \<open>
  An entry of the bypass list that survives \<^verbatim>\<open>join(', ')\<close> followed by the split of the
  getter: not empty, and free of commas and white space.
\<close>

definition plain_char :: "char \<Rightarrow> bool" where
  "plain_char c = (c \<noteq> CHR '','' \<and> \<not> js_space c)"

definition plain_entry :: "string \<Rightarrow> bool" where
  "plain_entry x = (x \<noteq> [] \<and> list_all plain_char x)"

text \<open>
  A fully populated triple, with a port number in the range of ports, and a member that
  is either absent or fully populated.
\<close>

definition complete_server :: "proxy_server \<Rightarrow> bool" where
  "complete_server p = (scheme p \<noteq> [] \<and> host p \<noteq> [] \<and> 0 < port p \<and> port p \<le> 65535)"

definition absent_or_complete :: "proxy_server option \<Rightarrow> bool" where
  "absent_or_complete d = (case d of None \<Rightarrow> True | Some p \<Rightarrow> complete_server p)"

text \<open>The three values \<^verbatim>\<open>setProxyImpl_\<close> writes for its argument.\<close>

definition proxy_fields_of :: "proxy_server option \<Rightarrow> proxy_fields" where
  "proxy_fields_of d =
     (case d of
        None \<Rightarrow> \<lparr>proxyScheme = ''http'', proxyHost = [], proxyPort = []\<rparr>
      | Some p \<Rightarrow>
          \<lparr>proxyScheme = scheme p, proxyHost = host p, proxyPort = show_int (port p)\<rparr>)"

text \<open>The one change \<^verbatim>\<open>recalcFormValues_\<close> makes to the configuration it is given.\<close>

definition normalize_mode :: "proxy_config \<Rightarrow> proxy_config" where
  "normalize_mode c = (if mode c = AUTO then c\<lparr>mode := PAC\<rparr> else c)"

text \<open>
  The configurations the form can show in full: mode \<^verbatim>\<open>system\<close>, \<^verbatim>\<open>direct\<close> or
  \<^verbatim>\<open>auto_detect\<close> with nothing else; mode \<^verbatim>\<open>pac_script\<close> with a mandatory script given by
  a URL; mode \<^verbatim>\<open>fixed_servers\<close> with either one complete \<^verbatim>\<open>singleProxy\<close> or per-scheme
  entries that are each absent or complete, and a bypass list of plain entries.
\<close>

definition renderable :: "proxy_config \<Rightarrow> bool" where
  "renderable c =
     (if mode c = SYSTEM \<or> mode c = DIRECT \<or> mode c = AUTO then
        pacScript c = None \<and> rules c = None
      else if mode c = PAC then
        rules c = None \<and>
        (\<exists>u. u \<noteq> [] \<and>
           pacScript c = Some \<lparr>url = Some u, data = None, mandatory = Some True\<rparr>)
      else if mode c = FIXED then
        pacScript c = None \<and>
        (\<exists>r bl. rules c = Some r \<and> bypassList r = Some bl \<and> list_all plain_entry bl \<and>
           (case singleProxy r of
              Some sp \<Rightarrow> complete_server sp \<and> perSchemeProxies r = []
            | None \<Rightarrow> absent_or_complete (proxyForHttp r) \<and>
                       absent_or_complete (proxyForHttps r) \<and>
                       absent_or_complete (proxyForFtp r) \<and>
                       absent_or_complete (fallbackProxy r)))
      else False)"

section \<open>Example documents and states\<close>

text \<open>
  A popup with the four groups \<^verbatim>\<open>system\<close>, \<^verbatim>\<open>direct\<close>, \<^verbatim>\<open>pac_script\<close> and
  \<^verbatim>\<open>fixed_servers\<close>, nothing filled in, nothing disabled and no group active yet. The
  PAC group holds the URL input and the script text area; the fixed-servers group holds
  the single-proxy checkbox, a scheme select, a host input and the bypass text area.
\<close>

definition blank_proxy :: proxy_fields where
  "blank_proxy = \<lparr>proxyScheme = ''http'', proxyHost = [], proxyPort = []\<rparr>"

definition blank_groups :: "group list" where
  "blank_groups =
     [\<lparr>gid = ''system'', active = False, radio_checked = False, radio_disabled = False,
        controls = []\<rparr>,
      \<lparr>gid = ''direct'', active = False, radio_checked = False, radio_disabled = False,
        controls = []\<rparr>,
      \<lparr>gid = ''pac_script'', active = False, radio_checked = False, radio_disabled = False,
        controls = [\<lparr>kind = InputOther, disabled = False\<rparr>,
                    \<lparr>kind = Textarea, disabled = False\<rparr>]\<rparr>,
      \<lparr>gid = ''fixed_servers'', active = False, radio_checked = False,
        radio_disabled = False,
        controls = [\<lparr>kind = InputOther, disabled = False\<rparr>,
                    \<lparr>kind = Select, disabled = False\<rparr>,
                    \<lparr>kind = InputOther, disabled = False\<rparr>,
                    \<lparr>kind = Textarea, disabled = False\<rparr>]\<rparr>]"

definition blank_form :: form where
  "blank_form =
     \<lparr>configGroups = blank_groups, autoconfigURL = [], autoconfigData = [],
      bypassListField = [], singleProxyForEverything = False, single_class = False,
      proxyHttp = blank_proxy, proxyHttps = blank_proxy, proxyFtp = blank_proxy,
      proxyFallback = blank_proxy, restrictRtcBox = False, incognito_class = False,
      button_text = ''Configure incognito window settings.'',
      header_html = ''Proxy Configuration (regular)''\<rparr>"

text \<open>The PAC group active, with both the URL and the script text filled in.\<close>

definition pac_both_form :: form where
  "pac_both_form =
     (changeActive (Some 2) blank_form)\<lparr>autoconfigURL := ''http://a'', autoconfigData := ''x''\<rparr>"

text \<open>
  The fixed-servers group active: the single-proxy box checked over an Http triple with no
  host, and a complete Https triple.
\<close>

definition fixed_single_form :: form where
  "fixed_single_form =
     (changeActive (Some 3) blank_form)
       \<lparr>singleProxyForEverything := True,
        proxyHttp := \<lparr>proxyScheme = ''http'', proxyHost = [], proxyPort = ''80''\<rparr>,
        proxyHttps := \<lparr>proxyScheme = ''https'', proxyHost = ''p.example'', proxyPort = ''443''\<rparr>\<rparr>"

text \<open>The same with the Http triple complete.\<close>

definition fixed_complete_form :: form where
  "fixed_complete_form =
     fixed_single_form
       \<lparr>proxyHttp := \<lparr>proxyScheme = ''http'', proxyHost = ''q.example'', proxyPort = ''80''\<rparr>\<rparr>"

definition system_config :: proxy_config where
  "system_config = \<lparr>mode = SYSTEM, pacScript = None, rules = None\<rparr>"

definition direct_config :: proxy_config where
  "direct_config = \<lparr>mode = DIRECT, pacScript = None, rules = None\<rparr>"

definition auto_config :: proxy_config where
  "auto_config = \<lparr>mode = AUTO, pacScript = None, rules = None\<rparr>"

definition auto_model :: config where
  "auto_model = \<lparr>proxy = Some auto_config, restrictRtc = Some RTC_DEFAULT\<rparr>"

definition direct_model :: config where
  "direct_model = \<lparr>proxy = Some direct_config, restrictRtc = Some RTC_DEFAULT\<rparr>"

text \<open>A configuration with an inline PAC script and no URL.\<close>

definition pac_data_model :: config where
  "pac_data_model =
     \<lparr>proxy = Some \<lparr>mode = PAC,
                    pacScript = Some \<lparr>url = None, data = Some ''x'', mandatory = Some True\<rparr>,
                    rules = None\<rparr>,
      restrictRtc = Some RTC_DEFAULT\<rparr>"

text \<open>
  A controller without incognito access whose regular configuration is \<^verbatim>\<open>direct\<close> while
  the form shows the \<^verbatim>\<open>system\<close> group.
\<close>

definition denied_state :: state where
  "denied_state =
     \<lparr>dom = changeActive (Some 0) blank_form,
      regularConfig = direct_model,
      incognitoConfig = \<lparr>proxy = None, restrictRtc = None\<rparr>,
      isAllowedIncognitoAccess = False,
      trace = []\<rparr>"

text \<open>
  A controller with both configurations loaded, the form showing the \<^verbatim>\<open>direct\<close> group,
  and a platform that rejects the regular write of the WebRTC policy.
\<close>

definition loaded_state :: state where
  "loaded_state =
     \<lparr>dom = changeActive (Some 1) blank_form,
      regularConfig = direct_model,
      incognitoConfig = direct_model,
      isAllowedIncognitoAccess = True,
      trace = []\<rparr>"

definition rtc_rejected :: write_outcomes where
  "rtc_rejected =
     \<lparr>regular_proxy_ok = True, regular_rtc_ok = False,
      incognito_proxy_ok = True, incognito_rtc_ok = True\<rparr>"

text \<open>A platform on which both regular settings are controlled by something else.\<close>

definition locked_platform :: platform where
  "locked_platform =
     \<lparr>allowedIncognito = False,
      regular_proxy = \<lparr>setting_value = system_config, levelOfControl = ''not_controllable''\<rparr>,
      regular_privacy =
        \<lparr>setting_value = RTC_DEFAULT, levelOfControl = ''controlled_by_other_extensions''\<rparr>,
      incognito_proxy = \<lparr>setting_value = system_config, levelOfControl = AVAILABLE\<rparr>,
      incognito_privacy = \<lparr>setting_value = RTC_DEFAULT, levelOfControl = AVAILABLE\<rparr>\<rparr>"

definition fresh_state :: state where
  "fresh_state =
     \<lparr>dom = blank_form,
      regularConfig = \<lparr>proxy = None, restrictRtc = None\<rparr>,
      incognitoConfig = \<lparr>proxy = None, restrictRtc = None\<rparr>,
      isAllowedIncognitoAccess = False,
      trace = []\<rparr>"

text \<open>
  A document in which the heading id names a \<^verbatim>\<open>DIV\<close> and the form id a \<^verbatim>\<open>FORM\<close>, and
  which accepts the selector built from that form id.
\<close>

definition example_document :: "string \<Rightarrow> string option" where
  "example_document i =
     (if i = ''title'' then Some ''DIV''
      else if i = ''proxyForm'' then Some ''FORM'' else None)"

definition example_selectors :: "string \<Rightarrow> bool" where
  "example_selectors sel = (sel = ''#proxyForm > fieldset'')"

section \<open>Auxiliary facts\<close>

subsection \<open>Evaluating the examples\<close>

lemmas example_defs =
  blank_form_def blank_groups_def blank_proxy_def changeActive_def recalcDisabledInputs_def
  recalc_group_def set_disabled_def first_active_def

lemmas mode_defs = SYSTEM_def DIRECT_def PAC_def FIXED_def AUTO_def

lemma parseInt10_empty: "parseInt10 [] = None"
  by (simp add: parseInt10_def)

lemma parseInt10_80: "parseInt10 ''80'' = Some 80"
  by (simp add: parseInt10_def js_space_def is_digit_def Let_def)

lemma parseInt10_443: "parseInt10 ''443'' = Some 443"
  by (simp add: parseInt10_def js_space_def is_digit_def Let_def)

lemma active_id_pac_both: "map_option gid (first_active pac_both_form) = Some PAC"
  by (simp add: pac_both_form_def example_defs PAC_def)

lemma active_id_fixed_single: "map_option gid (first_active fixed_single_form) = Some FIXED"
  by (simp add: fixed_single_form_def example_defs FIXED_def)

lemma active_id_fixed_complete:
  "map_option gid (first_active fixed_complete_form) = Some FIXED"
  by (simp add: fixed_complete_form_def fixed_single_form_def example_defs FIXED_def)

lemma extract_denied_state: "generateProxyConfig (dom denied_state) = Inr (Some system_config)"
  by (simp add: denied_state_def example_defs generateProxyConfig_def system_config_def SYSTEM_def)

lemma extract_loaded_state: "generateProxyConfig (dom loaded_state) = Inr (Some direct_config)"
  by (simp add: loaded_state_def example_defs generateProxyConfig_def direct_config_def mode_defs)

subsection \<open>Group activation\<close>

lemma length_mark_groups: "length (mark_groups t i gs) = length gs"
  by (induction gs arbitrary: i) auto

lemma active_mark_groups:
  "j < length gs \<Longrightarrow> active (mark_groups t i gs ! j) = (t = Some (i + j))"
proof (induction gs arbitrary: i j)
  case Nil
  then show ?case by simp
next
  case (Cons g gs)
  show ?case
  proof (cases j)
    case 0
    then show ?thesis by simp
  next
    case (Suc j')
    with Cons.prems have "j' < length gs" by simp
    from Cons.IH[OF this, of "Suc i"] Suc show ?thesis by simp
  qed
qed

lemma count_active_mark_groups:
  "length (filter active (mark_groups (Some k) i gs)) =
     (if i \<le> k \<and> k < i + length gs then 1 else 0)"
proof (induction gs arbitrary: i)
  case Nil
  then show ?case by simp
next
  case (Cons g gs)
  have IH: "length (filter active (mark_groups (Some k) (Suc i) gs)) =
     (if Suc i \<le> k \<and> k < Suc i + length gs then 1 else 0)"
    by (rule Cons.IH)
  show ?case
  proof (cases "k = i")
    case True
    with IH show ?thesis by simp
  next
    case False
    with IH show ?thesis by (simp split: if_splits)
  qed
qed

lemma active_recalc_group: "active (recalc_group g) = active g"
  by (simp add: recalc_group_def)

lemma filter_active_recalc:
  "length (filter active (map recalc_group gs)) = length (filter active gs)"
  by (induction gs) (simp_all add: active_recalc_group)

lemma inputs_recalc_group:
  "c \<in> set (inputs (recalc_group g)) \<Longrightarrow> disabled c = (\<not> active g)"
  by (auto simp: recalc_group_def inputs_def set_disabled_def split: if_splits)

lemma selected_not_radio: "selected_field k = (k \<noteq> InputRadio)"
  by (cases k) simp_all

lemma controls_recalc_group:
  "c \<in> set (controls (recalc_group g)) \<Longrightarrow> kind c \<noteq> InputRadio \<Longrightarrow>
   disabled c = (\<not> active g)"
  by (auto simp: recalc_group_def set_disabled_def selected_not_radio split: if_splits)

lemma radios_set_disabled:
  "filter is_radio (map (set_disabled b) cs) = filter is_radio cs"
  by (induction cs) (simp_all add: set_disabled_def is_radio_def selected_not_radio)

lemma radios_recalc_group:
  "filter is_radio (fields (recalc_group g)) = filter is_radio (fields g)"
  by (simp add: recalc_group_def fields_def radios_set_disabled)

lemma radios_mark_groups:
  "j < length gs \<Longrightarrow>
   filter is_radio (fields (mark_groups t i gs ! j)) = filter is_radio (fields (gs ! j))"
proof (induction gs arbitrary: i j)
  case Nil
  then show ?case by simp
next
  case (Cons g gs)
  show ?case
  proof (cases j)
    case 0
    then show ?thesis by (simp add: fields_def)
  next
    case (Suc j')
    with Cons.prems have "j' < length gs" by simp
    from Cons.IH[OF this, of "Suc i"] Suc show ?thesis by simp
  qed
qed

subsection \<open>Traces\<close>

lemma trace_save_form: "trace (save_form c s) = trace s"
  by (simp add: save_form_def)

lemma accessOk_errs: "snd (accessOk c errs what) = errs @ denied c what"
  by (simp add: accessOk_def denied_def)

lemma read_regular_trace:
  "trace (fst (read_regular pf se)) = trace (fst se) @ [GetProxy False, GetRtc False]"
  by (cases se) (simp add: read_regular_def Let_def emit_def split: prod.splits)

lemma read_regular_errs:
  "snd (read_regular pf se) =
     snd se @ denied (regular_proxy pf) ''regular/proxy'' @
              denied (regular_privacy pf) ''regular/privacy''"
  by (cases se) (simp add: read_regular_def Let_def accessOk_def denied_def split: prod.splits)

lemma read_regular_allowed:
  "isAllowedIncognitoAccess (fst (read_regular pf se)) = isAllowedIncognitoAccess (fst se)"
  by (cases se) (simp add: read_regular_def Let_def emit_def split: prod.splits)

lemma read_incognito_trace:
  "trace (fst (read_incognito pf se)) = trace (fst se) @ [GetProxy True, GetRtc True]"
  by (cases se) (simp add: read_incognito_def Let_def emit_def split: prod.splits)

lemma read_incognito_errs:
  "snd (read_incognito pf se) =
     snd se @ denied (incognito_proxy pf) ''incognito/proxy'' @
              denied (incognito_privacy pf) ''incognito/privacy''"
  by (cases se) (simp add: read_incognito_def Let_def accessOk_def denied_def split: prod.splits)

lemma recalcFormValues_events:
  "snd (snd (recalcFormValues cfg f)) = [] \<or>
   snd (snd (recalcFormValues cfg f)) = [ConsoleError ''recalcFormValues_ missing data'']"
  by (simp add: recalcFormValues_def Let_def split: option.splits)

lemma render_regular_trace:
  "\<exists>evs. trace (render_regular s) = trace s @ evs \<and> \<not> list_ex is_alert evs \<and>
         \<not> list_ex is_read evs"
  using recalcFormValues_events[of "regularConfig s" "dom s"]
  by (auto simp: render_regular_def emit_def split: prod.splits)

lemma render_incognito_trace:
  "\<exists>evs. trace (render_incognito s) = trace s @ evs \<and> \<not> list_ex is_alert evs \<and>
         \<not> list_ex is_read evs"
  using recalcFormValues_events[of "incognitoConfig s" "dom s"]
  by (auto simp: render_incognito_def emit_def split: prod.splits)

lemma readCurrentState_trace:
  "\<exists>evs. trace (readCurrentState pf s) =
          trace s @ read_events pf @ evs @
          (if access_errors pf \<noteq> []
           then [Alert (Text (js_join CRLF (''Failed to read state:'' # access_errors pf)))]
           else []) \<and>
         \<not> list_ex is_alert evs \<and> \<not> list_ex is_read evs"
proof -
  define s0 where "s0 = emit [IsAllowedIncognitoAccess]
                 (s\<lparr>isAllowedIncognitoAccess := allowedIncognito pf\<rparr>)"
  define r1 where "r1 = read_regular pf (s0, [''Failed to read state:''])"
  define r2 where "r2 = (if isAllowedIncognitoAccess (fst r1)
                         then read_incognito pf (fst r1, snd r1) else (fst r1, snd r1))"
  define s3 where "s3 = (if isIncognitoMode (fst r2) then render_incognito (fst r2)
                         else render_regular (fst r2))"
  have allowed: "isAllowedIncognitoAccess (fst r1) = allowedIncognito pf"
    by (simp add: r1_def read_regular_allowed s0_def emit_def)
  have t1: "trace (fst r1) = trace s @ [IsAllowedIncognitoAccess, GetProxy False, GetRtc False]"
    by (simp add: r1_def read_regular_trace s0_def emit_def)
  have r2: "r2 = (if allowedIncognito pf then read_incognito pf r1 else r1)"
    by (simp add: r2_def allowed)
  have t2: "trace (fst r2) = trace s @ read_events pf"
    by (simp add: r2 read_incognito_trace t1 read_events_def)
  have e1: "snd r1 = ''Failed to read state:'' #
              denied (regular_proxy pf) ''regular/proxy'' @
              denied (regular_privacy pf) ''regular/privacy''"
    by (simp add: r1_def read_regular_errs)
  have e2: "snd r2 = ''Failed to read state:'' # access_errors pf"
    by (simp add: r2 e1 read_incognito_errs access_errors_def)
  have "\<exists>evs. trace s3 = trace (fst r2) @ evs \<and> \<not> list_ex is_alert evs \<and>
          \<not> list_ex is_read evs"
    unfolding s3_def
    using render_regular_trace[of "fst r2"] render_incognito_trace[of "fst r2"]
    by (cases "isIncognitoMode (fst r2)") simp_all
  then obtain evs where t3: "trace s3 = trace (fst r2) @ evs"
    and na: "\<not> list_ex is_alert evs" and nr: "\<not> list_ex is_read evs"
    by blast
  have res: "readCurrentState pf s =
      (if length (snd r2) > 1 then generateAlert (Text (js_join CRLF (snd r2))) s3 else s3)"
    by (simp add: readCurrentState_def Let_def s0_def r1_def r2_def s3_def split: prod.splits)
  have "trace (readCurrentState pf s) =
          trace s @ read_events pf @ evs @
          (if access_errors pf \<noteq> []
           then [Alert (Text (js_join CRLF (''Failed to read state:'' # access_errors pf)))]
           else [])"
    by (simp add: res e2 t3 t2 generateAlert_def emit_def)
  with na nr show ?thesis by blast
qed

subsection \<open>The guards of the constructor\<close>

lemma guard_never_holds:
  "\<not> loose_eq_bool_string b ''H1''" "\<not> loose_eq_bool_string b ''FORM''"
  by (simp_all add: loose_eq_bool_string_def string_to_number_def js_space_def is_digit_def
      Let_def)

lemma constructor_never_throws_structural:
  "ProxyFormController d v h f \<noteq> Inl (Thrown m, st)"
  by (simp add: ProxyFormController_def guard_never_holds Let_def)

subsection \<open>What rendering leaves alone\<close>

lemma render_keeps_autoconfigData:
  "autoconfigData (fst (snd (recalcFormValues cfg f))) = autoconfigData f"
  by (simp add: recalcFormValues_def Let_def changeActive_def recalcDisabledInputs_def
      set_pacURL_def set_bypassList_def set_restrictRtc_def set_singleProxy_def
      set_httpProxy_def set_httpsProxy_def set_ftpProxy_def set_fallbackProxy_def
      setProxyImpl_def split: option.splits)

subsection \<open>Numbers written into a field and parsed back\<close>

lemma digit_char: "d < 10 \<Longrightarrow> is_digit (char_of (48 + d)) \<and> (of_char (char_of (48 + d) :: char) :: nat) = 48 + d"
  by (simp add: is_digit_def)

lemma digits_value_snoc:
  "digits_value acc (xs @ [c]) = 10 * digits_value acc xs + ((of_char c :: nat) - 48)"
  by (induction xs arbitrary: acc) simp_all

lemma show_nat_props:
  "show_nat n \<noteq> [] \<and> list_all is_digit (show_nat n) \<and> digits_value 0 (show_nat n) = n"
proof (induction n rule: show_nat.induct)
  case (1 n)
  show ?case
  proof (cases "n < 10")
    case True
    then show ?thesis
      by (subst (1 2 3) show_nat.simps) (simp add: digit_char)
  next
    case False
    have d: "n mod 10 < 10" by simp
    from 1[OF False] False digit_char[OF d] show ?thesis
      by (subst (1 2 3) show_nat.simps) (simp add: digits_value_snoc)
  qed
qed

lemma digit_not_space: "is_digit c \<Longrightarrow> \<not> js_space c"
  by (auto simp: is_digit_def js_space_def)

lemma digit_not_sign: "is_digit c \<Longrightarrow> c \<noteq> CHR ''-'' \<and> c \<noteq> CHR ''+''"
  by (auto simp: is_digit_def)

lemma takeWhile_all: "list_all P xs \<Longrightarrow> takeWhile P xs = xs"
  by (induction xs) simp_all

lemma parseInt10_digits:
  assumes "is_digit c" and "list_all is_digit cs"
  shows "parseInt10 (c # cs) = Some (int (digits_value 0 (c # cs)))"
proof -
  from assms(1) have ns: "\<not> js_space c" by (rule digit_not_space)
  from assms have tw: "takeWhile is_digit (c # cs) = c # cs" by (simp add: takeWhile_all)
  from digit_not_sign[OF assms(1)] ns show ?thesis
    by (simp add: parseInt10_def Let_def tw del: takeWhile.simps digits_value.simps)
qed

lemma parseInt10_show_nat: "parseInt10 (show_nat n) = Some (int n)"
proof -
  from show_nat_props[of n] obtain c cs where s: "show_nat n = c # cs" and c: "is_digit c"
    and all: "list_all is_digit cs" and v: "digits_value 0 (show_nat n) = n"
    by (cases "show_nat n") auto
  from parseInt10_digits[OF c all] v show ?thesis by (simp add: s)
qed

lemma parseInt10_minus_digits:
  assumes "is_digit c" and "list_all is_digit cs"
  shows "parseInt10 (CHR ''-'' # c # cs) = Some (- int (digits_value 0 (c # cs)))"
proof -
  have sp: "\<not> js_space CHR ''-''" by (simp add: js_space_def)
  from assms have tw: "takeWhile is_digit (c # cs) = c # cs" by (simp add: takeWhile_all)
  from sp show ?thesis
    by (simp add: parseInt10_def Let_def tw del: takeWhile.simps digits_value.simps)
qed

lemma parseInt10_show_int: "parseInt10 (show_int k) = Some k"
proof (cases "k < 0")
  case False
  then show ?thesis by (simp add: show_int_def parseInt10_show_nat)
next
  case True
  from show_nat_props[of "nat (- k)"] obtain c cs where s: "show_nat (nat (- k)) = c # cs"
    and c: "is_digit c" and all: "list_all is_digit cs"
    and v: "digits_value 0 (show_nat (nat (- k))) = nat (- k)"
    by (cases "show_nat (nat (- k))") auto
  from parseInt10_minus_digits[OF c all] v True show ?thesis
    by (simp add: show_int_def s)
qed

subsection \<open>Joining and splitting the bypass list\<close>

lemma line_terminator_space: "js_line_terminator c \<Longrightarrow> js_space c"
  by (auto simp: js_line_terminator_def js_space_def)

lemma ws_run_Cons: "ws_run (c # cs) = (if js_space c then Suc (ws_run cs) else 0)"
  by (simp add: ws_run_def)

lemma split_loop_plain_step:
  assumes "q < length S" and "plain_char (S ! q)" and "p \<le> q"
    and "0 < q \<longrightarrow> \<not> js_line_terminator (S ! (q - 1))"
  shows "split_loop S p q A = split_loop S p (Suc q) A"
proof -
  from assms(1) have d: "drop q S = S ! q # drop (Suc q) S"
    by (simp add: Cons_nth_drop_Suc)
  from assms(2) have k: "ws_run (drop q S) = 0"
    by (simp add: d ws_run_Cons plain_char_def)
  from assms(2) have nc: "S ! q \<noteq> CHR '',''" by (simp add: plain_char_def)
  have m: "sep_match S q = (if q = 0 then Some 0 else None)"
    using assms(4) nc by (simp add: sep_match_def k line_start_def)
  show ?thesis
  proof (cases "q = 0")
    case True
    with assms(3) have "p = 0" by simp
    with True m assms(1) show ?thesis
      by (subst split_loop.simps) simp
  next
    case False
    with m assms(1) show ?thesis
      by (subst split_loop.simps) simp
  qed
qed

lemma split_loop_comma_step:
  assumes "q + 2 < length S" and "S ! q = CHR '',''" and "S ! (q + 1) = CHR '' ''"
    and "plain_char (S ! (q + 2))" and "p \<le> q"
  shows "split_loop S p q A = split_loop S (q + 2) (q + 2) (A @ [take (q - p) (drop p S)])"
proof -
  from assms(1) have d0: "drop q S = S ! q # drop (Suc q) S"
    by (simp add: Cons_nth_drop_Suc)
  have k: "ws_run (drop q S) = 0"
    by (simp add: d0 ws_run_Cons assms(2) js_space_def)
  from assms(1) have d1: "drop (Suc q) S = S ! (Suc q) # S ! (Suc (Suc q)) # drop (Suc (Suc (Suc q))) S"
    by (simp add: Cons_nth_drop_Suc)
  from assms(3,4) have k1: "ws_run (drop (Suc q) S) = 1"
    by (simp add: d1 ws_run_Cons js_space_def plain_char_def)
  from assms(1,2) have m: "sep_match S q = Some (q + 2)"
    by (simp add: sep_match_def k k1)
  from assms(1,5) m show ?thesis
    by (subst split_loop.simps) (simp add: Let_def)
qed

lemma split_loop_scan:
  assumes "list_all plain_char v" and "list_all plain_char u"
    and "pre = [] \<or> \<not> js_line_terminator (last pre)"
  shows "split_loop (pre @ u @ v @ rest) (length pre) (length pre + length u) A =
         split_loop (pre @ u @ v @ rest) (length pre) (length pre + length u + length v) A"
  using assms
proof (induction v arbitrary: u)
  case Nil
  then show ?case by simp
next
  case (Cons c v)
  let ?S = "pre @ u @ (c # v) @ rest"
  let ?q = "length pre + length u"
  have q: "?q < length ?S" by simp
  have at: "?S ! ?q = c"
    by (metis append.assoc length_append nth_append_length append_Cons)
  from Cons.prems(1) have pc: "plain_char (?S ! ?q)" by (simp add: at)
  have prev: "0 < ?q \<longrightarrow> \<not> js_line_terminator (?S ! (?q - 1))"
  proof
    assume pos: "0 < ?q"
    show "\<not> js_line_terminator (?S ! (?q - 1))"
    proof (cases "u = []")
      case True
      with pos have ne: "pre \<noteq> []" by simp
      with True have "?S ! (?q - 1) = last pre"
        by (simp add: nth_append last_conv_nth)
      with Cons.prems(3) ne show ?thesis by simp
    next
      case False
      then have e1: "?S = (pre @ butlast u) @ last u # ((c # v) @ rest)" by simp
      from False have e2: "?q - 1 = length (pre @ butlast u)"
        by (cases u) simp_all
      have "?S ! (?q - 1) = last u"
        unfolding e2 by (subst e1) (rule nth_append_length)
      moreover from False Cons.prems(2) have "plain_char (last u)"
        by (simp add: list_all_iff)
      ultimately show ?thesis
        using line_terminator_space by (auto simp: plain_char_def)
    qed
  qed
  have step: "split_loop ?S (length pre) ?q A = split_loop ?S (length pre) (Suc ?q) A"
    by (rule split_loop_plain_step[OF q pc _ prev]) simp
  from Cons.prems have "list_all plain_char v" "list_all plain_char (u @ [c])" by simp_all
  from Cons.IH[OF this Cons.prems(3)] step show ?case by simp
qed

lemma split_loop_join:
  assumes "xs \<noteq> []" and "list_all plain_entry xs"
    and "pre = [] \<or> \<not> js_line_terminator (last pre)"
  shows "split_loop (pre @ js_join '', '' xs) (length pre) (length pre) A = A @ xs"
  using assms
proof (induction xs arbitrary: pre A)
  case Nil
  then show ?case by simp
next
  case (Cons x xs)
  from Cons.prems(2) have px: "list_all plain_char x" and xne: "x \<noteq> []"
    by (simp_all add: plain_entry_def)
  show ?case
  proof (cases xs)
    case Nil
    let ?S = "pre @ x"
    from split_loop_scan[OF px _ Cons.prems(3), of "[]" "[]" A]
    have "split_loop ?S (length pre) (length pre) A =
          split_loop ?S (length pre) (length ?S) A" by simp
    also have "\<dots> = A @ [x]" by (subst split_loop.simps) simp
    finally show ?thesis by (simp add: Nil)
  next
    case (Cons y ys)
    let ?J = "js_join '', '' (y # ys)"
    let ?S = "pre @ x @ '', '' @ ?J"
    let ?q = "length pre + length x"
    from Cons.prems(2) Cons have py: "plain_entry y" and pys: "list_all plain_entry (y # ys)"
      by simp_all
    from py obtain y0 y' where y: "y = y0 # y'" and y0: "plain_char y0"
      by (cases y) (auto simp: plain_entry_def)
    obtain J' where J: "?J = y0 # J'" by (cases ys) (simp_all add: y)
    have S: "js_join '', '' (x # xs) = x @ '', '' @ ?J" by (simp add: Cons)
    from split_loop_scan[OF px _ Cons.prems(3), of "[]" "'', '' @ ?J" A]
    have scan: "split_loop ?S (length pre) (length pre) A = split_loop ?S (length pre) ?q A"
      by simp
    have S2: "?S = (pre @ x) @ CHR '','' # CHR '' '' # y0 # J'" by (simp add: J)
    have c0: "?S ! ?q = CHR '',''" unfolding S2 by (simp add: nth_append)
    have c1: "?S ! (?q + 1) = CHR '' ''" unfolding S2 by (simp add: nth_append)
    have c2: "plain_char (?S ! (?q + 2))" unfolding S2 using y0 by (simp add: nth_append)
    have len: "?q + 2 < length ?S" unfolding S2 by simp
    have tk: "take (?q - length pre) (drop (length pre) ?S) = x" by simp
    from split_loop_comma_step[OF len c0 c1 c2, of "length pre" A] tk
    have comma: "split_loop ?S (length pre) ?q A = split_loop ?S (?q + 2) (?q + 2) (A @ [x])"
      by simp
    have "split_loop ((pre @ x @ '', '') @ ?J) (length (pre @ x @ '', ''))
            (length (pre @ x @ '', '')) (A @ [x]) = (A @ [x]) @ y # ys"
      using Cons.IH[of "pre @ x @ '', ''" "A @ [x]"] pys Cons
      by (simp add: js_line_terminator_def)
    then have rest: "split_loop ?S (?q + 2) (?q + 2) (A @ [x]) = A @ x # y # ys"
      by simp
    from scan comma rest show ?thesis by (simp add: S Cons)
  qed
qed

lemma split_bypass_join:
  assumes "list_all plain_entry xs"
  shows "split_bypass (js_join '', '' xs) = xs"
proof (cases xs)
  case Nil
  then show ?thesis by (simp add: split_bypass_def)
next
  case (Cons x xs')
  from assms Cons have "x \<noteq> []" by (simp add: plain_entry_def)
  then have ne: "js_join '', '' xs \<noteq> []" using Cons by (cases xs') simp_all
  from split_loop_join[of xs "[]" "[]"] assms Cons
  have "split_loop (js_join '', '' xs) 0 0 [] = xs" by simp
  with ne show ?thesis by (simp add: split_bypass_def)
qed

subsection \<open>The active group after rendering\<close>

lemma find_group_Some:
  "find_group i n gs = Some k \<Longrightarrow> n \<le> k \<and> k - n < length gs \<and> gid (gs ! (k - n)) = i"
proof (induction gs arbitrary: n)
  case Nil
  then show ?case by simp
next
  case (Cons g gs)
  show ?case
  proof (cases "gid g = i")
    case True
    with Cons.prems show ?thesis by simp
  next
    case False
    with Cons.prems have "find_group i (Suc n) gs = Some k" by simp
    from Cons.IH[OF this] have "Suc n \<le> k" "k - Suc n < length gs" "gid (gs ! (k - Suc n)) = i"
      by simp_all
    then show ?thesis by (simp add: Suc_diff_le nth_Cons')
  qed
qed

lemma find_active_mark_groups:
  "k < length gs \<Longrightarrow>
   map_option gid (List.find active (map recalc_group (mark_groups (Some (i + k)) i gs))) =
     Some (gid (gs ! k))"
proof (induction gs arbitrary: i k)
  case Nil
  then show ?case by simp
next
  case (Cons g gs)
  show ?case
  proof (cases k)
    case 0
    then show ?thesis by (simp add: recalc_group_def)
  next
    case (Suc k')
    with Cons.prems have "k' < length gs" by simp
    from Cons.IH[OF this, of "Suc i"] Suc show ?thesis
      by (simp add: recalc_group_def)
  qed
qed

lemma active_id_changeActive:
  assumes "k < length (configGroups f)"
  shows "map_option gid (first_active (changeActive (Some k) f)) = Some (gid (configGroups f ! k))"
  using find_active_mark_groups[OF assms, of 0]
  by (simp add: first_active_def changeActive_def recalcDisabledInputs_def)

lemma find_none_mark_groups:
  "List.find active (map recalc_group (mark_groups None i gs)) = None"
  by (induction gs arbitrary: i) (simp_all add: recalc_group_def)

lemma first_active_changeActive_None: "first_active (changeActive None f) = None"
  by (simp add: first_active_def changeActive_def recalcDisabledInputs_def find_none_mark_groups)

lemma active_id_changeActive_mode:
  assumes "getElementById_group m f \<noteq> None"
  shows "map_option gid (first_active (changeActive (getElementById_group m f) f)) = Some m"
proof -
  from assms obtain k where k: "find_group m 0 (configGroups f) = Some k"
    by (auto simp: getElementById_group_def)
  from find_group_Some[OF k] have "k < length (configGroups f)" "gid (configGroups f ! k) = m"
    by simp_all
  with active_id_changeActive[of k f] k show ?thesis
    by (simp add: getElementById_group_def)
qed

lemmas setter_defs =
  set_pacURL_def set_bypassList_def set_restrictRtc_def set_singleProxy_def
  set_httpProxy_def set_httpsProxy_def set_ftpProxy_def set_fallbackProxy_def setProxyImpl_def

lemma render_form:
  assumes "proxy cfg = Some c" and "restrictRtc cfg = Some r"
  shows "configGroups (fst (snd (recalcFormValues cfg f))) =
           configGroups (changeActive (getElementById_group (mode (normalize_mode c)) f) f)"
  using assms
  by (simp add: recalcFormValues_def Let_def normalize_mode_def mode_defs setter_defs
      split: option.splits)

lemma render_autoconfigURL:
  assumes "proxy cfg = Some c" and "restrictRtc cfg = Some r"
  shows "autoconfigURL (fst (snd (recalcFormValues cfg f))) =
     (case pacScript c of
        None \<Rightarrow> []
      | Some ps \<Rightarrow> (case url ps of None \<Rightarrow> autoconfigURL f
                    | Some u \<Rightarrow> if u \<noteq> [] then u else autoconfigURL f))"
  using assms
  by (simp add: recalcFormValues_def Let_def setter_defs changeActive_def recalcDisabledInputs_def
      split: option.splits)

lemma first_active_cong:
  "configGroups f = configGroups f' \<Longrightarrow> first_active f = first_active f'"
  by (simp add: first_active_def)

text \<open>
  A configuration whose PAC script is given by its text only: what is read back after
  rendering is decided by what the URL and script fields held before.
\<close>

lemma render_extract_pac_data_only:
  assumes "proxy cfg = Some c" and "restrictRtc cfg = Some r"
    and "mode c = PAC" and "pacScript c = Some ps" and "url ps = None"
    and "getElementById_group PAC f \<noteq> None"
  shows "generateProxyConfig (fst (snd (recalcFormValues cfg f))) =
     Inr (Some (if autoconfigURL f \<noteq> [] then
                  \<lparr>mode = PAC,
                   pacScript = Some \<lparr>url = Some (autoconfigURL f), data = None,
                                      mandatory = Some True\<rparr>,
                   rules = None\<rparr>
                else if autoconfigData f \<noteq> [] then
                  \<lparr>mode = PAC,
                   pacScript = Some \<lparr>url = None, data = Some (autoconfigData f),
                                      mandatory = Some True\<rparr>,
                   rules = None\<rparr>
                else \<lparr>mode = AUTO, pacScript = None, rules = None\<rparr>))"
proof -
  let ?f' = "fst (snd (recalcFormValues cfg f))"
  have nm: "normalize_mode c = c" using assms(3) by (simp add: normalize_mode_def mode_defs)
  have "first_active ?f' = first_active (changeActive (getElementById_group PAC f) f)"
    using render_form[OF assms(1,2), of f] nm assms(3) by (simp add: first_active_def)
  with active_id_changeActive_mode[OF assms(6)]
  have act: "map_option gid (first_active ?f') = Some PAC" by simp
  have u: "autoconfigURL ?f' = autoconfigURL f"
    using render_autoconfigURL[OF assms(1,2), of f] assms(4,5) by simp
  have d: "autoconfigData ?f' = autoconfigData f" by (rule render_keeps_autoconfigData)
  from act obtain a where a: "first_active ?f' = Some a" "gid a = PAC"
    by (cases "first_active ?f'") simp_all
  from a u d show ?thesis
    by (simp add: generateProxyConfig_def mode_defs pacURL_def manualPac_def)
qed

subsection \<open>Rendering a configuration and reading it back\<close>

lemma proxy_input_set:
  "proxy_input ty (set_proxy_input ty' v f) = (if ty = ty' then v else proxy_input ty f)"
  by (cases ty; cases ty') simp_all

lemma setProxyImpl_fields:
  "setProxyImpl ty d f = set_proxy_input ty (proxy_fields_of d) f"
  by (simp add: setProxyImpl_def proxy_fields_of_def split: option.splits)

lemma getProxyImpl_written:
  assumes "proxy_input ty f = proxy_fields_of d" and "absent_or_complete d"
  shows "getProxyImpl ty f = d"
proof (cases d)
  case None
  with assms(1) show ?thesis
    by (simp add: getProxyImpl_def proxy_fields_of_def parseInt10_empty truthy_number_def)
next
  case (Some p)
  with assms show ?thesis
    by (simp add: getProxyImpl_def proxy_fields_of_def parseInt10_show_int truthy_number_def
        absent_or_complete_def complete_server_def)
qed

lemma perScheme_empty:
  "perSchemeProxies r = [] \<longleftrightarrow>
     proxyForHttp r = None \<and> proxyForHttps r = None \<and> proxyForFtp r = None \<and>
     fallbackProxy r = None"
  by (simp add: perSchemeProxies_def split: option.splits)

lemmas render_defs =
  recalcFormValues_def Let_def set_pacURL_def set_bypassList_def set_restrictRtc_def
  set_singleProxy_def set_httpProxy_def set_httpsProxy_def set_ftpProxy_def
  set_fallbackProxy_def setProxyImpl_fields changeActive_def recalcDisabledInputs_def

text \<open>
  For a configuration the form can show in full, rendering it and reading the form back
  gives the configuration as it was before the rendering (which rewrites the mode
  \<^verbatim>\<open>auto_detect\<close> in the object it is given) and its WebRTC value, provided the document has a group
  for the mode and, for mode \<^verbatim>\<open>auto_detect\<close>, the script field was empty before (the
  rendering never writes that field).
\<close>

lemma render_extract_roundtrip:
  assumes wf: "renderable c"
    and rtc: "r = RTC_DEFAULT \<or> r = RTC_RESTRICT"
    and grp: "getElementById_group (mode (normalize_mode c)) f \<noteq> None"
    and stale: "mode c = AUTO \<longrightarrow> autoconfigData f = []"
  shows "generateProxyConfig (fst (snd (recalcFormValues \<lparr>proxy = Some c, restrictRtc = Some r\<rparr> f))) =
           Inr (Some c) \<and>
         get_restrictRtc (fst (snd (recalcFormValues \<lparr>proxy = Some c, restrictRtc = Some r\<rparr> f))) = r"
proof -
  define cfg where "cfg = \<lparr>proxy = Some c, restrictRtc = Some r\<rparr>"
  define f' where "f' = fst (snd (recalcFormValues cfg f))"
  have pc: "proxy cfg = Some c" and pr: "restrictRtc cfg = Some r" by (simp_all add: cfg_def)
  have "first_active f' = first_active (changeActive (getElementById_group (mode (normalize_mode c)) f) f)"
    unfolding f'_def using render_form[OF pc pr, of f] by (rule first_active_cong)
  with active_id_changeActive_mode[OF grp]
  have "map_option gid (first_active f') = Some (mode (normalize_mode c))" by simp
  then obtain a where a: "first_active f' = Some a" "gid a = mode (normalize_mode c)"
    by (cases "first_active f'") simp_all
  have rb: "get_restrictRtc f' = r"
    using rtc
    by (auto simp: f'_def cfg_def get_restrictRtc_def render_defs RTC_DEFAULT_def RTC_RESTRICT_def
        split: option.splits)
  have dat: "autoconfigData f' = autoconfigData f"
    unfolding f'_def by (rule render_keeps_autoconfigData)
  have url: "autoconfigURL f' =
     (case pacScript c of
        None \<Rightarrow> []
      | Some ps \<Rightarrow> (case url ps of None \<Rightarrow> autoconfigURL f
                    | Some u \<Rightarrow> if u \<noteq> [] then u else autoconfigURL f))"
    unfolding f'_def by (rule render_autoconfigURL[OF pc pr])
  have ex: "generateProxyConfig f' = Inr (Some c)"
  proof -
    consider (plain) "mode c = SYSTEM \<or> mode c = DIRECT" | (auto) "mode c = AUTO"
      | (pac) "mode c = PAC" | (fixed) "mode c = FIXED"
      using wf by (auto simp: renderable_def split: if_splits)
    then show ?thesis
    proof cases
      case plain
      with wf have "pacScript c = None" "rules c = None" by (auto simp: renderable_def)
      with plain a show ?thesis
        by (auto simp: generateProxyConfig_def normalize_mode_def mode_defs)
    next
      case auto
      with wf have m: "pacScript c = None" "rules c = None" by (auto simp: renderable_def)
      from auto a have "gid a = PAC" by (simp add: normalize_mode_def)
      with a(1) m auto url dat stale show ?thesis
        by (simp add: generateProxyConfig_def mode_defs pacURL_def manualPac_def)
    next
      case pac
      with wf obtain u where u: "u \<noteq> []" "rules c = None"
        "pacScript c = Some \<lparr>url = Some u, data = None, mandatory = Some True\<rparr>"
        by (auto simp: renderable_def mode_defs)
      from pac a have "gid a = PAC" by (simp add: normalize_mode_def mode_defs)
      with a(1) u pac url show ?thesis
        by (simp add: generateProxyConfig_def mode_defs pacURL_def)
    next
      case fixed
      with wf obtain rl bl where rl: "pacScript c = None" "rules c = Some rl"
        "bypassList rl = Some bl" "list_all plain_entry bl"
        and alt: "case singleProxy rl of
              Some sp \<Rightarrow> complete_server sp \<and> perSchemeProxies rl = []
            | None \<Rightarrow> absent_or_complete (proxyForHttp rl) \<and>
                       absent_or_complete (proxyForHttps rl) \<and>
                       absent_or_complete (proxyForFtp rl) \<and>
                       absent_or_complete (fallbackProxy rl)"
        by (auto simp: renderable_def mode_defs)
      from fixed a have ga: "gid a = FIXED" by (simp add: normalize_mode_def mode_defs)
      have nm: "normalize_mode c = c" using fixed by (simp add: normalize_mode_def mode_defs)
      have bf: "bypassListField f' = js_join '', '' bl"
        using rl fixed
        by (simp add: f'_def cfg_def render_defs mode_defs split: option.splits)
      then have bl: "get_bypassList f' = bl"
        using rl(4) by (simp add: get_bypassList_def split_bypass_join)
      show ?thesis
      proof (cases "singleProxy rl")
        case (Some sp)
        with alt have sp: "complete_server sp" and per: "perSchemeProxies rl = []" by simp_all
        have chk: "singleProxyForEverything f'"
          using rl fixed Some
          by (simp add: f'_def cfg_def render_defs mode_defs)
        have "proxy_input Http f' = proxy_fields_of (Some sp)"
          using rl fixed Some
          by (simp add: f'_def cfg_def render_defs mode_defs)
        from getProxyImpl_written[OF this] sp have "getProxyImpl Http f' = Some sp"
          by (simp add: absent_or_complete_def)
        with chk have gs: "get_singleProxy f' = Some sp"
          by (simp add: get_singleProxy_def httpProxy_def)
        from per have "proxyForHttp rl = None" "proxyForHttps rl = None"
          "proxyForFtp rl = None" "fallbackProxy rl = None"
          by (simp_all add: perScheme_empty)
        with a(1) ga gs bl rl Some fixed show ?thesis
          by (simp add: generateProxyConfig_def mode_defs)
      next
        case None
        with alt have ac: "absent_or_complete (proxyForHttp rl)"
          "absent_or_complete (proxyForHttps rl)" "absent_or_complete (proxyForFtp rl)"
          "absent_or_complete (fallbackProxy rl)" by simp_all
        have chk: "\<not> singleProxyForEverything f'"
          using rl fixed None
          by (simp add: f'_def cfg_def render_defs mode_defs)
        have i1: "proxy_input Http f' = proxy_fields_of (proxyForHttp rl)"
          and i2: "proxy_input Https f' = proxy_fields_of (proxyForHttps rl)"
          and i3: "proxy_input Ftp f' = proxy_fields_of (proxyForFtp rl)"
          and i4: "proxy_input Fallback f' = proxy_fields_of (fallbackProxy rl)"
          using rl fixed None
          by (simp_all add: f'_def cfg_def render_defs mode_defs)
        have g: "getProxyImpl Http f' = proxyForHttp rl"
          "getProxyImpl Https f' = proxyForHttps rl"
          "getProxyImpl Ftp f' = proxyForFtp rl"
          "getProxyImpl Fallback f' = fallbackProxy rl"
          using getProxyImpl_written[OF i1 ac(1)] getProxyImpl_written[OF i2 ac(2)]
            getProxyImpl_written[OF i3 ac(3)] getProxyImpl_written[OF i4 ac(4)]
          by simp_all
        from chk have gs: "get_singleProxy f' = None" by (simp add: get_singleProxy_def)
        from a(1) ga gs g bl rl None fixed show ?thesis
          by (simp add: generateProxyConfig_def mode_defs httpProxy_def httpsProxy_def
              ftpProxy_def get_fallbackProxy_def)
      qed
    qed
  qed
  from ex rb show ?thesis by (simp add: f'_def cfg_def)
qed

lemma render_extract_roundtrip_example:
  "generateProxyConfig (fst (snd (recalcFormValues
       \<lparr>proxy = Some \<lparr>mode = FIXED, pacScript = None,
                      rules = Some \<lparr>singleProxy = None,
                                     proxyForHttp = Some \<lparr>scheme = ''http'', host = ''q.example'', port = 80\<rparr>,
                                     proxyForHttps = None, proxyForFtp = None, fallbackProxy = None,
                                     bypassList = Some [''localhost'', ''<local>'']\<rparr>\<rparr>,
        restrictRtc = Some RTC_RESTRICT\<rparr> blank_form))) =
     Inr (Some \<lparr>mode = FIXED, pacScript = None,
                rules = Some \<lparr>singleProxy = None,
                               proxyForHttp = Some \<lparr>scheme = ''http'', host = ''q.example'', port = 80\<rparr>,
                               proxyForHttps = None, proxyForFtp = None, fallbackProxy = None,
                               bypassList = Some [''localhost'', ''<local>'']\<rparr>\<rparr>)"
proof -
  let ?c = "\<lparr>mode = FIXED, pacScript = None,
              rules = Some \<lparr>singleProxy = None,
                             proxyForHttp = Some \<lparr>scheme = ''http'', host = ''q.example'', port = 80\<rparr>,
                             proxyForHttps = None, proxyForFtp = None, fallbackProxy = None,
                             bypassList = Some [''localhost'', ''<local>'']\<rparr>\<rparr>"
  have wf: "renderable ?c"
    by (simp add: renderable_def mode_defs plain_entry_def plain_char_def js_space_def
        absent_or_complete_def complete_server_def)
  have grp: "getElementById_group (mode (normalize_mode ?c)) blank_form \<noteq> None"
    by (simp add: normalize_mode_def mode_defs getElementById_group_def blank_form_def
        blank_groups_def)
  have stale: "mode ?c = AUTO \<longrightarrow> autoconfigData blank_form = []"
    by (simp add: blank_form_def)
  from render_extract_roundtrip[OF wf _ grp stale, of RTC_RESTRICT] show ?thesis by simp
qed

section \<open>Properties of the controller\<close>

subsection \<open>Applying the form\<close>

text \<open>
  C1. In every run of \<^verbatim>\<open>applyChanges_\<close> in which one of the two writes of the regular
  scope fails, the alert \<^verbatim>\<open>errorSettingRegularProxy\<close> is shown and is the last thing the
  run does: there is no other alert, no write with scope \<^verbatim>\<open>incognito_persistent\<close> and the
  popup is not closed. A write is attempted only once the form has been read, which is
  the first assumption.
\<close>

theorem apply_regular_failure_stops:
  assumes "generateProxyConfig (dom s) = Inr c"
    and "\<not> (regular_proxy_ok w \<and> regular_rtc_ok w)"
  shows "\<exists>s' evs. applyChanges w s = Inr s' \<and>
           trace s' = trace s @ evs @ [Alert (I18n ''errorSettingRegularProxy'')] \<and>
           \<not> list_ex is_alert evs \<and>
           \<not> list_ex is_incognito_write evs \<and>
           WindowClose \<notin> set evs"
proof (cases "regular_proxy_ok w")
  case False
  with assms(1) show ?thesis
    by (simp add: applyChanges_def Let_def emit_def generateAlert_def trace_save_form)
next
  case True
  with assms(2) have "\<not> regular_rtc_ok w" by simp
  with True assms(1) show ?thesis
    by (simp add: applyChanges_def Let_def emit_def generateAlert_def trace_save_form)
qed

theorem apply_regular_failure_stops_witness:
  "generateProxyConfig (dom loaded_state) = Inr (Some direct_config) \<and>
   \<not> (regular_proxy_ok rtc_rejected \<and> regular_rtc_ok rtc_rejected) \<and>
   proxy (incognitoConfig loaded_state) \<noteq> None \<and>
   (\<exists>s' evs. applyChanges rtc_rejected loaded_state = Inr s' \<and>
      trace s' = trace loaded_state @ evs @ [Alert (I18n ''errorSettingRegularProxy'')] \<and>
      \<not> list_ex is_alert evs \<and>
      \<not> list_ex is_incognito_write evs \<and>
      WindowClose \<notin> set evs)"
proof -
  have h1: "generateProxyConfig (dom loaded_state) = Inr (Some direct_config)"
    by (rule extract_loaded_state)
  have h2: "\<not> (regular_proxy_ok rtc_rejected \<and> regular_rtc_ok rtc_rejected)"
    by (simp add: rtc_rejected_def)
  have h3: "proxy (incognitoConfig loaded_state) \<noteq> None"
    by (simp add: loaded_state_def direct_model_def)
  from apply_regular_failure_stops[OF h1 h2] h1 h2 h3 show ?thesis by blast
qed

subsection \<open>Rendering and reading back\<close>

text \<open>
  C2. Rendering a configuration and reading the form back should give the configuration
  again, also for one whose mode is \<^verbatim>\<open>pac_script\<close> with only \<^verbatim>\<open>pacScript.data\<close> set.
  \<^verbatim>\<open>recalcFormValues_\<close> never writes the script text into the form (the setter
  \<^verbatim>\<open>manualPac\<close> is not called), so on the blank popup such a configuration comes back as
  \<^verbatim>\<open>auto_detect\<close> with the script lost. In general it comes back as whatever the URL
  and script fields held before (\<open>render_extract_pac_data_only\<close>), while every
  configuration given by a URL, by fixed servers or by a bare mode does come back
  (\<open>render_extract_roundtrip\<close>).
\<close>

theorem render_then_extract_loses_pac_data:
  "generateProxyConfig (fst (snd (recalcFormValues pac_data_model blank_form))) =
     Inr (Some auto_config) \<and>
   proxy pac_data_model \<noteq> Some auto_config"
  by (simp add: recalcFormValues_def pac_data_model_def auto_config_def mode_defs Let_def
      RTC_DEFAULT_def example_defs getElementById_group_def set_pacURL_def set_bypassList_def
      set_restrictRtc_def set_fallbackProxy_def set_ftpProxy_def set_httpProxy_def
      set_httpsProxy_def set_singleProxy_def setProxyImpl_def generateProxyConfig_def
      pacURL_def manualPac_def)

subsection \<open>Switching the profile without incognito access\<close>

text \<open>
  C3, as stated: with incognito access not permitted, the switch first saves the form into
  the regular configuration. It does not: in \<open>denied_state\<close> the form reads as
  \<^verbatim>\<open>system\<close>, and after the switch the regular configuration is still \<^verbatim>\<open>direct\<close>.
\<close>

theorem toggle_denied_extract_counterexample:
  "\<not> isAllowedIncognitoAccess denied_state \<and>
   generateProxyConfig (dom denied_state) = Inr (Some system_config) \<and>
   map_sum id regularConfig (toggleIncognitoMode denied_state) = Inr direct_model \<and>
   proxy direct_model \<noteq> Some system_config"
  by (simp add: extract_denied_state)
    (simp add: denied_state_def toggleIncognitoMode_def Let_def emit_def generateAlert_def
      direct_model_def direct_config_def system_config_def mode_defs)

text \<open>
  C3, amended. With incognito access not permitted, \<^verbatim>\<open>toggleIncognitoMode_\<close> cancels the
  click, shows the permission-denied alert and returns: the form is not read, and the
  document (so also the window type on display), both configurations and the access flag
  are what they were.
\<close>

theorem toggle_denied_changes_nothing:
  assumes "\<not> isAllowedIncognitoAccess s"
  shows "toggleIncognitoMode s =
     Inr (s\<lparr>trace := trace s @
               [PreventDefault, StopPropagation, Alert (Text incognito_denied_msg)]\<rparr>)"
  using assms by (simp add: toggleIncognitoMode_def Let_def emit_def generateAlert_def)

theorem toggle_denied_changes_nothing_witness:
  "\<not> isAllowedIncognitoAccess denied_state \<and>
   toggleIncognitoMode denied_state =
     Inr (denied_state\<lparr>trace :=
            [PreventDefault, StopPropagation, Alert (Text incognito_denied_msg)]\<rparr>)"
proof -
  have h: "\<not> isAllowedIncognitoAccess denied_state" by (simp add: denied_state_def)
  have t: "trace denied_state = []" by (simp add: denied_state_def)
  from toggle_denied_changes_nothing[OF h] h t show ?thesis by simp
qed

subsection \<open>Construction\<close>

text \<open>
  C4. A heading id that does not resolve to an \<^verbatim>\<open>H1\<close> should make the constructor throw
  before anything is initialised. With the heading id naming a \<^verbatim>\<open>DIV\<close> the constructor
  throws nothing and runs every step of the initialisation: the guard compares the
  boolean \<^verbatim>\<open>!nodeName\<close> with the string \<^verbatim>\<open>'H1'\<close>, which is never equal.
\<close>

theorem constructor_accepts_wrong_heading:
  "example_document ''title'' = Some ''DIV'' \<and>
   ProxyFormController example_document example_selectors ''title'' ''proxyForm'' =
     Inr [QueryConfigGroups, BindEventHandlers, ReadCurrentState, HandleProxyErrors]"
  by (simp add: ProxyFormController_def guard_never_holds example_document_def
      example_selectors_def Let_def)

subsection \<open>Reading the form\<close>

text \<open>
  C5. When the active group is the PAC group, \<^verbatim>\<open>generateProxyConfig_\<close> returns mode
  \<^verbatim>\<open>pac_script\<close> with the URL if the URL field is not empty, whatever the script field
  holds; else mode \<^verbatim>\<open>pac_script\<close> with the script text if the script field is not empty;
  else mode \<^verbatim>\<open>auto_detect\<close>.
\<close>

theorem extract_pac_precedence:
  assumes "map_option gid (first_active f) = Some PAC"
  shows "generateProxyConfig f =
     Inr (Some (if autoconfigURL f \<noteq> [] then
                  \<lparr>mode = PAC,
                   pacScript = Some \<lparr>url = Some (autoconfigURL f), data = None,
                                      mandatory = Some True\<rparr>,
                   rules = None\<rparr>
                else if autoconfigData f \<noteq> [] then
                  \<lparr>mode = PAC,
                   pacScript = Some \<lparr>url = None, data = Some (autoconfigData f),
                                      mandatory = Some True\<rparr>,
                   rules = None\<rparr>
                else \<lparr>mode = AUTO, pacScript = None, rules = None\<rparr>))"
  using assms
  by (cases "first_active f")
    (simp_all add: generateProxyConfig_def mode_defs pacURL_def manualPac_def)

theorem extract_pac_precedence_witness:
  "map_option gid (first_active pac_both_form) = Some PAC \<and>
   autoconfigData pac_both_form = ''x'' \<and>
   generateProxyConfig pac_both_form =
     Inr (Some \<lparr>mode = PAC,
                pacScript = Some \<lparr>url = Some ''http://a'', data = None, mandatory = Some True\<rparr>,
                rules = None\<rparr>)"
proof -
  have u: "autoconfigURL pac_both_form = ''http://a''" by (simp add: pac_both_form_def)
  have d: "autoconfigData pac_both_form = ''x''" by (simp add: pac_both_form_def)
  from extract_pac_precedence[OF active_id_pac_both] active_id_pac_both u d
  show ?thesis by simp
qed

subsection \<open>Activating a group\<close>

text \<open>
  C6, as stated: after \<^verbatim>\<open>changeActive_\<close> is called on a group, every field of every
  group that is not active is disabled. It is not: the selector of
  \<^verbatim>\<open>recalcDisabledInputs_\<close> leaves out the radio buttons, so after the PAC group of the
  blank popup is activated the \<^verbatim>\<open>system\<close> group is not active and its one field, the
  mode selector, is still enabled.
\<close>

theorem changeActive_radio_counterexample:
  "2 < length (configGroups blank_form) \<and>
   \<not> active (configGroups (changeActive (Some 2) blank_form) ! 0) \<and>
   map kind (fields (configGroups (changeActive (Some 2) blank_form) ! 0)) = [InputRadio] \<and>
   map disabled (fields (configGroups (changeActive (Some 2) blank_form) ! 0)) = [False] \<and>
   \<not> list_all disabled (fields (configGroups (changeActive (Some 2) blank_form) ! 0))"
  by (simp add: example_defs fields_def)

text \<open>
  C6, amended. After \<^verbatim>\<open>changeActive_\<close> is called on one of the configuration groups,
  exactly one group is active, namely that one; every field that is not a radio button is
  disabled in every group that is not active (and enabled in the active one); and the
  radio buttons of every group, its mode selector among them, have the \<^verbatim>\<open>disabled\<close>
  state they had before.
\<close>

theorem changeActive_exclusive_except_radios:
  assumes "i < length (configGroups f)"
  shows "length (filter active (configGroups (changeActive (Some i) f))) = 1 \<and>
         (\<forall>j < length (configGroups (changeActive (Some i) f)).
            active (configGroups (changeActive (Some i) f) ! j) = (j = i)) \<and>
         (\<forall>g \<in> set (configGroups (changeActive (Some i) f)).
            \<forall>c \<in> set (fields g). kind c \<noteq> InputRadio \<longrightarrow> disabled c = (\<not> active g)) \<and>
         (\<forall>j < length (configGroups (changeActive (Some i) f)).
            filter is_radio (fields (configGroups (changeActive (Some i) f) ! j)) =
            filter is_radio (fields (configGroups f ! j)))"
proof -
  let ?gs = "configGroups (changeActive (Some i) f)"
  let ?ms = "mark_groups (Some i) 0 (configGroups f)"
  have gs: "?gs = map recalc_group ?ms"
    by (simp add: changeActive_def recalcDisabledInputs_def)
  have one: "length (filter active ?gs) = 1"
    using assms unfolding gs filter_active_recalc count_active_mark_groups by simp
  have at: "\<forall>j < length ?gs. active (?gs ! j) = (j = i)"
    by (auto simp: gs length_mark_groups active_recalc_group active_mark_groups)
  have dis: "\<forall>g \<in> set ?gs. \<forall>c \<in> set (fields g).
               kind c \<noteq> InputRadio \<longrightarrow> disabled c = (\<not> active g)"
  proof (intro ballI impI)
    fix g c
    assume g: "g \<in> set ?gs" and c: "c \<in> set (fields g)" and k: "kind c \<noteq> InputRadio"
    from g obtain g0 where g0: "g = recalc_group g0" by (auto simp: gs)
    from c k have "c \<in> set (controls g)" by (auto simp: fields_def)
    with k show "disabled c = (\<not> active g)"
      unfolding g0 by (simp add: controls_recalc_group active_recalc_group)
  qed
  have rad: "\<forall>j < length ?gs. filter is_radio (fields (?gs ! j)) =
               filter is_radio (fields (configGroups f ! j))"
  proof (intro allI impI)
    fix j
    assume "j < length ?gs"
    then have j: "j < length (configGroups f)" by (simp add: gs length_mark_groups)
    then have "?gs ! j = recalc_group (?ms ! j)" by (simp add: gs length_mark_groups)
    with radios_mark_groups[OF j, of "Some i" 0]
    show "filter is_radio (fields (?gs ! j)) = filter is_radio (fields (configGroups f ! j))"
      by (simp add: radios_recalc_group)
  qed
  from one at dis rad show ?thesis by blast
qed

theorem changeActive_exclusive_except_radios_witness:
  "2 < length (configGroups blank_form) \<and>
   map active (configGroups (changeActive (Some 2) blank_form)) = [False, False, True, False] \<and>
   map (map disabled \<circ> controls) (configGroups (changeActive (Some 2) blank_form)) =
     [Nil, Nil, [False, False], [True, True, True, True]] \<and>
   map radio_disabled (configGroups (changeActive (Some 2) blank_form)) =
     [False, False, False, False] \<and>
   length (filter active (configGroups (changeActive (Some 2) blank_form))) = 1"
proof -
  have h: "2 < length (configGroups blank_form)"
    by (simp add: blank_form_def blank_groups_def)
  have m: "map active (configGroups (changeActive (Some 2) blank_form)) =
      [False, False, True, False]"
    by (simp add: example_defs)
  have d: "map (map disabled \<circ> controls) (configGroups (changeActive (Some 2) blank_form)) =
      [Nil, Nil, [False, False], [True, True, True, True]]"
    by (simp add: example_defs)
  have r: "map radio_disabled (configGroups (changeActive (Some 2) blank_form)) =
      [False, False, False, False]"
    by (simp add: example_defs)
  from changeActive_exclusive_except_radios[OF h] h m d r show ?thesis by blast
qed

subsection \<open>Reading the fixed-servers group\<close>

text \<open>
  C7. When the active group is the fixed-servers group, the configuration that
  \<^verbatim>\<open>generateProxyConfig_\<close> returns has mode \<^verbatim>\<open>fixed_servers\<close> and rules that never hold
  both a \<^verbatim>\<open>singleProxy\<close> and a per-scheme entry.
\<close>

theorem extract_fixed_exclusive:
  assumes "map_option gid (first_active f) = Some FIXED"
  shows "\<exists>c r. generateProxyConfig f = Inr (Some c) \<and> mode c = FIXED \<and>
           rules c = Some r \<and>
           \<not> (singleProxy r \<noteq> None \<and> perSchemeProxies r \<noteq> [])"
  using assms
  by (cases "first_active f")
    (auto simp: generateProxyConfig_def mode_defs perSchemeProxies_def)

theorem extract_fixed_exclusive_witness:
  "map_option gid (first_active fixed_complete_form) = Some FIXED \<and>
   getProxyImpl Https fixed_complete_form \<noteq> None \<and>
   (\<exists>c r. generateProxyConfig fixed_complete_form = Inr (Some c) \<and> mode c = FIXED \<and>
      rules c = Some r \<and>
      \<not> (singleProxy r \<noteq> None \<and> perSchemeProxies r \<noteq> []))"
proof -
  have p: "getProxyImpl Https fixed_complete_form \<noteq> None"
    by (simp add: getProxyImpl_def fixed_complete_form_def fixed_single_form_def example_defs
        parseInt10_443 truthy_number_def)
  from extract_fixed_exclusive[OF active_id_fixed_complete] active_id_fixed_complete p
  show ?thesis by blast
qed

text \<open>
  C10. When the active group is the fixed-servers group and the single-proxy box is
  checked, but the Http triple is incomplete (its scheme or host is empty, or its port is
  empty, zero or not a number), \<^verbatim>\<open>generateProxyConfig_\<close> takes the per-scheme branch:
  the rules hold the four per-scheme entries, each read from its own triple and the Http
  one absent, and no \<^verbatim>\<open>singleProxy\<close>.
\<close>

theorem extract_fixed_incomplete_single:
  assumes "map_option gid (first_active f) = Some FIXED"
    and "singleProxyForEverything f"
    and "proxyScheme (proxyHttp f) = [] \<or> proxyHost (proxyHttp f) = [] \<or>
         proxyPort (proxyHttp f) = [] \<or>
         \<not> truthy_number (parseInt10 (proxyPort (proxyHttp f)))"
  shows "generateProxyConfig f =
     Inr (Some \<lparr>mode = FIXED, pacScript = None,
                rules = Some \<lparr>singleProxy = None,
                               proxyForHttp = None,
                               proxyForHttps = getProxyImpl Https f,
                               proxyForFtp = getProxyImpl Ftp f,
                               fallbackProxy = getProxyImpl Fallback f,
                               bypassList = Some (split_bypass (bypassListField f))\<rparr>\<rparr>)"
proof -
  from assms(3) have none: "getProxyImpl Http f = None"
    by (auto simp: getProxyImpl_def truthy_number_def parseInt10_empty Let_def)
  from assms(1) obtain a where a: "first_active f = Some a" "gid a = FIXED"
    by (cases "first_active f") simp_all
  from a none assms(2) show ?thesis
    by (simp add: generateProxyConfig_def mode_defs get_singleProxy_def httpProxy_def
        httpsProxy_def ftpProxy_def get_fallbackProxy_def get_bypassList_def)
qed

theorem extract_fixed_incomplete_single_witness:
  "map_option gid (first_active fixed_single_form) = Some FIXED \<and>
   singleProxyForEverything fixed_single_form \<and>
   proxyHost (proxyHttp fixed_single_form) = [] \<and>
   generateProxyConfig fixed_single_form =
     Inr (Some \<lparr>mode = FIXED, pacScript = None,
                rules = Some \<lparr>singleProxy = None,
                               proxyForHttp = None,
                               proxyForHttps =
                                 Some \<lparr>scheme = ''https'', host = ''p.example'', port = 443\<rparr>,
                               proxyForFtp = None,
                               fallbackProxy = None,
                               bypassList = Some []\<rparr>\<rparr>)"
proof -
  have h2: "singleProxyForEverything fixed_single_form"
    by (simp add: fixed_single_form_def)
  have h3: "proxyHost (proxyHttp fixed_single_form) = []"
    by (simp add: fixed_single_form_def)
  have h3': "proxyScheme (proxyHttp fixed_single_form) = [] \<or>
             proxyHost (proxyHttp fixed_single_form) = [] \<or>
             proxyPort (proxyHttp fixed_single_form) = [] \<or>
             \<not> truthy_number (parseInt10 (proxyPort (proxyHttp fixed_single_form)))"
    using h3 by simp
  have https: "getProxyImpl Https fixed_single_form =
      Some \<lparr>scheme = ''https'', host = ''p.example'', port = 443\<rparr>"
    by (simp add: getProxyImpl_def fixed_single_form_def example_defs parseInt10_443
        truthy_number_def)
  have ftp: "getProxyImpl Ftp fixed_single_form = None"
    by (simp add: getProxyImpl_def fixed_single_form_def example_defs parseInt10_empty
        truthy_number_def)
  have fb: "getProxyImpl Fallback fixed_single_form = None"
    by (simp add: getProxyImpl_def fixed_single_form_def example_defs parseInt10_empty
        truthy_number_def)
  have bl: "split_bypass (bypassListField fixed_single_form) = []"
    by (simp add: split_bypass_def fixed_single_form_def example_defs)
  from extract_fixed_incomplete_single[OF active_id_fixed_single h2 h3']
    active_id_fixed_single h2 h3 https ftp fb bl
  show ?thesis by simp
qed

subsection \<open>Loading\<close>

text \<open>
  C8. In every run of \<^verbatim>\<open>readCurrentState_\<close> in which two or more reads report a level of
  control that is not acceptable, the run shows exactly one alert, after all its platform
  reads and as its last event; the text of the alert is the heading
  \<^verbatim>\<open>Failed to read state:\<close> and the descriptions of all the access errors, in the order
  of the reads, joined by line breaks.
\<close>

theorem load_aggregates_access_errors:
  assumes "2 \<le> length (access_errors pf)"
  shows "\<exists>evs. trace (readCurrentState pf s) =
           trace s @ read_events pf @ evs @
           [Alert (Text (js_join CRLF (''Failed to read state:'' # access_errors pf)))] \<and>
         \<not> list_ex is_alert (read_events pf @ evs) \<and> \<not> list_ex is_read evs"
proof -
  from assms have ne: "access_errors pf \<noteq> []" by auto
  have nr: "\<not> list_ex is_alert (read_events pf)" by (simp add: read_events_def)
  from readCurrentState_trace[of pf s] ne nr show ?thesis by auto
qed

theorem load_aggregates_access_errors_witness:
  "access_errors locked_platform =
     [''regular/proxy: not_controllable'',
      ''regular/privacy: controlled_by_other_extensions''] \<and>
   2 \<le> length (access_errors locked_platform) \<and>
   (\<exists>evs. trace (readCurrentState locked_platform fresh_state) =
      trace fresh_state @ read_events locked_platform @ evs @
      [Alert (Text (js_join CRLF (''Failed to read state:'' # access_errors locked_platform)))] \<and>
      \<not> list_ex is_alert (read_events locked_platform @ evs) \<and> \<not> list_ex is_read evs)"
proof -
  have e: "access_errors locked_platform =
     [''regular/proxy: not_controllable'',
      ''regular/privacy: controlled_by_other_extensions'']"
    by (simp add: access_errors_def denied_def locked_platform_def level_ok_def AVAILABLE_def
        CONTROLLING_def)
  then have h: "2 \<le> length (access_errors locked_platform)" by simp
  from load_aggregates_access_errors[OF h, of fresh_state] e h show ?thesis by blast
qed

subsection \<open>What rendering does to the configuration\<close>

text \<open>
  C9, as stated: rendering leaves the configuration it renders unchanged, and a
  configuration whose mode is \<^verbatim>\<open>auto_detect\<close> still has that mode afterwards. It does
  not: after rendering, the mode of \<open>auto_model\<close> is \<^verbatim>\<open>pac_script\<close>.
\<close>

theorem render_auto_counterexample:
  "map_option mode (proxy auto_model) = Some AUTO \<and>
   fst (recalcFormValues auto_model blank_form) \<noteq> auto_model \<and>
   map_option mode (proxy (fst (recalcFormValues auto_model blank_form))) = Some PAC"
  by (simp add: recalcFormValues_def auto_model_def auto_config_def mode_defs Let_def
      RTC_DEFAULT_def)

text \<open>
  C9, amended. Rendering changes nothing of the configuration but its mode, and the mode
  only when it is \<^verbatim>\<open>auto_detect\<close>, which becomes \<^verbatim>\<open>pac_script\<close>; a configuration with
  another mode, or with no proxy value or no WebRTC value, is left as it is.
\<close>

theorem render_model_effect:
  "fst (recalcFormValues cfg f) =
     (case (proxy cfg, restrictRtc cfg) of
        (Some c, Some r) \<Rightarrow> cfg\<lparr>proxy := Some (normalize_mode c)\<rparr>
      | _ \<Rightarrow> cfg)"
  by (simp add: recalcFormValues_def normalize_mode_def mode_defs Let_def
      split: option.splits)

theorem render_model_effect_witness:
  "fst (recalcFormValues direct_model blank_form) = direct_model"
  using render_model_effect[of direct_model blank_form]
  by (simp add: direct_model_def direct_config_def normalize_mode_def mode_defs)

end
